theory Spec2Isabelle
  imports Main
begin

section \<open>Python values that reach the command payload\<close>

text \<open>
  The controller passes its arguments through to \<^verbatim>\<open>json.dumps\<close> without doing
  arithmetic on them. A joint id, a delay and a mode are Python ints (unbounded, so
  \<open>int\<close>); an angle is a Python number, an int or a float. Floats are only ever passed
  through and printed, so the type of the finite floats is a type parameter \<open>'f\<close>, and
  the text the interpreter prints for a finite float (\<^verbatim>\<open>float.__repr__\<close>, which is not
  code of this repository) is a parameter \<open>frepr :: 'f \<Rightarrow> string\<close> of every function that
  prints or serialises one. The floats that are not finite are written out, as the
  encoder and the decoder treat each of them on its own: \<open>NaN\<close> stands for any
  not-a-number, \<open>PosInf\<close> and \<open>NegInf\<close> for the two infinities.
\<close>

datatype 'f number = IntNum int | FloatNum 'f | NaN | PosInf | NegInf

text \<open>
  \<^verbatim>\<open>a == b\<close> on two numbers, as far as the properties below need it. A not-a-number
  is equal to nothing, itself included; otherwise the same int, the same finite float
  and the same infinity are equal. (Python also holds an int equal to a float of the same
  value, and 0.0 to -0.0; \<open>py_eq\<close> is only ever asked about a number and its decoded
  copy.)
\<close>

fun py_eq :: "'f number \<Rightarrow> 'f number \<Rightarrow> bool" where
  "py_eq NaN b = False"
| "py_eq a NaN = False"
| "py_eq a b = (a = b)"

text \<open>
  A payload is a dict literal whose keys are strings and whose values are numbers or
  nested dicts. Python dicts keep insertion order and \<^verbatim>\<open>json.dumps\<close> writes the items
  in that order, so a dict is the list of its items in insertion order.
\<close>

datatype 'f pyval = Num "'f number" | Dict "(string \<times> 'f pyval) list"

text \<open>\<^verbatim>\<open>d[k] = v\<close>: an existing key keeps its place and gets the new value, a new key goes last.\<close>

fun setitem :: "(string \<times> 'v) list \<Rightarrow> string \<Rightarrow> 'v \<Rightarrow> (string \<times> 'v) list" where
  "setitem [] k v = [(k, v)]"
| "setitem ((k', v') # d) k v = (if k' = k then (k, v) # d else (k', v') # setitem d k v)"

text \<open>\<^verbatim>\<open>d[k]\<close> and \<^verbatim>\<open>k in d\<close> on a dict.\<close>

fun lookup :: "(string \<times> 'v) list \<Rightarrow> string \<Rightarrow> 'v option" where
  "lookup [] k = None"
| "lookup ((k', v') # d) k = (if k' = k then Some v' else lookup d k)"

text \<open>
  \<^verbatim>\<open>xs[i]\<close> on a list: a negative index counts from the end, and an index out of range
  raises IndexError, which is \<open>None\<close> here.
\<close>

definition getitem :: "'a list \<Rightarrow> int \<Rightarrow> 'a option" where
  "getitem xs i =
     (if 0 \<le> i \<and> i < int (length xs) then Some (xs ! nat i)
      else if i < 0 \<and> - int (length xs) \<le> i then Some (xs ! nat (int (length xs) + i))
      else None)"

section \<open>Text of numbers\<close>

definition digit_char :: "nat \<Rightarrow> char" where
  "digit_char d = char_of (48 + d)"

text \<open>The decimal digits of a natural number, most significant first, no leading zero.\<close>

fun digits :: "nat \<Rightarrow> string" where
  "digits n = (if n < 10 then [digit_char n] else digits (n div 10) @ [digit_char (n mod 10)])"

declare digits.simps [simp del]

text \<open>\<^verbatim>\<open>str(n)\<close> and \<^verbatim>\<open>repr(n)\<close> of a Python int.\<close>

definition str_int :: "int \<Rightarrow> string" where
  "str_int n = (if n < 0 then CHR ''-'' # digits (nat (- n)) else digits (nat n))"

text \<open>\<^verbatim>\<open>str(x)\<close> and \<^verbatim>\<open>repr(x)\<close> of a number: both are the same text for ints and floats.\<close>

fun str_number :: "('f \<Rightarrow> string) \<Rightarrow> 'f number \<Rightarrow> string" where
  "str_number frepr (IntNum n) = str_int n"
| "str_number frepr (FloatNum x) = frepr x"
| "str_number frepr NaN = ''nan''"
| "str_number frepr PosInf = ''inf''"
| "str_number frepr NegInf = ''-inf''"

text \<open>\<^verbatim>\<open>", ".join(ss)\<close>.\<close>

fun join_comma :: "string list \<Rightarrow> string" where
  "join_comma [] = []"
| "join_comma [s] = s"
| "join_comma (s # t # ss) = s @ '', '' @ join_comma (t # ss)"

text \<open>\<^verbatim>\<open>str(xs)\<close> of a list of numbers, as an f-string prints it.\<close>

definition str_list :: "('f \<Rightarrow> string) \<Rightarrow> 'f number list \<Rightarrow> string" where
  "str_list frepr xs = ''['' @ join_comma (map (str_number frepr) xs) @ '']''"

section \<open>json.dumps on payloads\<close>

text \<open>
  \<^verbatim>\<open>json.dumps\<close> with its default arguments: items are separated by a comma and a space,
  a key from its value by a colon and a space; an int is written in decimal, a finite
  float by its repr, and a float that is not finite as \<^verbatim>\<open>NaN\<close>, \<^verbatim>\<open>Infinity\<close> or
  \<^verbatim>\<open>-Infinity\<close> (\<^verbatim>\<open>allow_nan\<close> is on by default, so these do not raise); a key is
  written between double quotes. The encoder escapes
  double quotes, backslashes, control and non-ASCII characters inside a key; every key
  of this program is a literal made of lower-case letters, digits and underscores, so
  keys are written as they are (\<open>plain_key\<close> below says which keys that is right for).
\<close>

definition dquote :: char where
  "dquote = CHR 0x22"

definition dumps_key :: "string \<Rightarrow> string" where
  "dumps_key k = dquote # k @ [dquote]"

fun dumps_number :: "('f \<Rightarrow> string) \<Rightarrow> 'f number \<Rightarrow> string" where
  "dumps_number frepr (IntNum n) = str_int n"
| "dumps_number frepr (FloatNum x) = frepr x"
| "dumps_number frepr NaN = ''NaN''"
| "dumps_number frepr PosInf = ''Infinity''"
| "dumps_number frepr NegInf = ''-Infinity''"

fun json_dumps :: "('f \<Rightarrow> string) \<Rightarrow> 'f pyval \<Rightarrow> string"
  and dumps_items :: "('f \<Rightarrow> string) \<Rightarrow> (string \<times> 'f pyval) list \<Rightarrow> string" where
  "json_dumps frepr (Num n) = dumps_number frepr n"
| "json_dumps frepr (Dict d) = ''{'' @ dumps_items frepr d @ ''}''"
| "dumps_items frepr [] = []"
| "dumps_items frepr [(k, v)] = dumps_key k @ '': '' @ json_dumps frepr v"
| "dumps_items frepr ((k, v) # kv # d) =
     dumps_key k @ '': '' @ json_dumps frepr v @ '', '' @ dumps_items frepr (kv # d)"

section \<open>Messages\<close>

text \<open>
  The two DDS message types of \<^verbatim>\<open>messages.py\<close>. The field names of the source end in an
  underscore (\<^verbatim>\<open>data_\<close>, \<^verbatim>\<open>servo0_data_\<close>), which a HOL name cannot, so it is dropped.
\<close>

record ArmString =
  data :: string

record 'f PubServoInfo =
  servo0_data :: 'f
  servo1_data :: 'f
  servo2_data :: 'f
  servo3_data :: 'f
  servo4_data :: 'f
  servo5_data :: 'f
  servo6_data :: 'f

text \<open>\<^verbatim>\<open>PubServoInfo()\<close>: every field has the default 0.0, written \<open>0\<close>.\<close>

definition PubServoInfo_default :: "('f::zero) PubServoInfo" where
  "PubServoInfo_default =
     \<lparr>servo0_data = 0, servo1_data = 0, servo2_data = 0, servo3_data = 0,
      servo4_data = 0, servo5_data = 0, servo6_data = 0\<rparr>"

definition as_list :: "'f PubServoInfo \<Rightarrow> 'f list" where
  "as_list p =
     [servo0_data p, servo1_data p, servo2_data p, servo3_data p,
      servo4_data p, servo5_data p, servo6_data p]"

section \<open>The controller\<close>

text \<open>
  The state of a \<^verbatim>\<open>D1ArmController\<close> that its commands read or write: the counter
  \<^verbatim>\<open>_seq\<close>, the messages handed to \<^verbatim>\<open>cmd_writer.write\<close> so far, oldest first, and the
  lines printed so far. The DDS writer is the middleware's: a write is taken to hand
  the message over and return.
\<close>

record controller =
  participant :: int
  seq :: int
  cmd_writer :: "ArmString list"
  stdout :: "string list"

definition JOINT_NAMES :: "string list" where
  "JOINT_NAMES =
     [''Base rotation'', ''Shoulder pitch'', ''Shoulder roll'', ''Elbow pitch'',
      ''Wrist pitch'', ''Wrist roll'', ''Gripper'']"

definition print :: "controller \<Rightarrow> string \<Rightarrow> controller" where
  "print c line = c\<lparr>stdout := stdout c @ [line]\<rparr>"

text \<open>\<^verbatim>\<open>D1ArmController(domain_id)\<close>; the default of \<^verbatim>\<open>domain_id\<close> is 0.\<close>

definition init :: "int \<Rightarrow> controller" where
  "init domain_id =
     print
       (print \<lparr>participant = domain_id, seq = 0, cmd_writer = [], stdout = []\<rparr>
          ''Initializing D1 Arm Controller...'')
       ''D1 Arm Controller ready.''"

text \<open>\<^verbatim>\<open>_send\<close>.\<close>

definition send :: "('f \<Rightarrow> string) \<Rightarrow> controller \<Rightarrow> (string \<times> 'f pyval) list \<Rightarrow> controller" where
  "send frepr c payload =
     (let payload1 = setitem payload ''seq'' (Num (IntNum (seq c)));
          payload2 = setitem payload1 ''address'' (Num (IntNum 1));
          msg = \<lparr>data = json_dumps frepr (Dict payload2)\<rparr>
      in c\<lparr>cmd_writer := cmd_writer c @ [msg], seq := seq c + 1\<rparr>)"

text \<open>
  A command either returns (Python's \<^verbatim>\<open>None\<close>) or lets an exception escape to the
  caller; both leave a controller behind.
\<close>

datatype exception = IndexError

datatype outcome = Returns controller | Raises exception controller

definition move_joint ::
    "('f \<Rightarrow> string) \<Rightarrow> controller \<Rightarrow> int \<Rightarrow> 'f number \<Rightarrow> int \<Rightarrow> outcome" where
  "move_joint frepr c joint_id angle delay_ms =
     (if joint_id < 0 \<or> joint_id > 6
      then Returns (print c (''Error: joint_id must be 0-6, got '' @ str_int joint_id))
      else
        (let c1 = send frepr c
                    [(''funcode'', Num (IntNum 1)),
                     (''data'', Dict [(''id'', Num (IntNum joint_id)),
                                      (''angle'', Num angle),
                                      (''delay_ms'', Num (IntNum delay_ms))])]
         in case getitem JOINT_NAMES joint_id of
              None \<Rightarrow> Raises IndexError c1
            | Some name \<Rightarrow>
                Returns (print c1 (''Joint '' @ str_int joint_id @ '' ('' @ name @ '') -> ''
                                     @ str_number frepr angle @ '' deg''))))"

definition move_all_joints ::
    "('f \<Rightarrow> string) \<Rightarrow> controller \<Rightarrow> 'f number list \<Rightarrow> outcome" where
  "move_all_joints frepr c angles =
     (if length angles \<noteq> 7
      then Returns (print c (''Error: expected 7 angles, got '' @ str_int (int (length angles))))
      else
        (case (getitem angles 0, getitem angles 1, getitem angles 2, getitem angles 3,
               getitem angles 4, getitem angles 5, getitem angles 6) of
           (Some a0, Some a1, Some a2, Some a3, Some a4, Some a5, Some a6) \<Rightarrow>
             Returns
               (print
                  (send frepr c
                     [(''funcode'', Num (IntNum 2)),
                      (''data'', Dict [(''mode'', Num (IntNum 1)),
                                       (''angle0'', Num a0), (''angle1'', Num a1),
                                       (''angle2'', Num a2), (''angle3'', Num a3),
                                       (''angle4'', Num a4), (''angle5'', Num a5),
                                       (''angle6'', Num a6)])])
                  (''All joints -> '' @ str_list frepr angles))
         | _ \<Rightarrow> Raises IndexError c))"

definition enable_joints :: "('f \<Rightarrow> string) \<Rightarrow> controller \<Rightarrow> int \<Rightarrow> outcome" where
  "enable_joints frepr c mode =
     Returns
       (print
          (send frepr c [(''funcode'', Num (IntNum 5)), (''data'', Dict [(''mode'', Num (IntNum mode))])])
          (''Joints '' @ (if mode = 0 then ''enabled'' else ''disabled'')))"

definition go_to_zero :: "('f \<Rightarrow> string) \<Rightarrow> controller \<Rightarrow> outcome" where
  "go_to_zero frepr c =
     Returns (print (send frepr c [(''funcode'', Num (IntNum 7))]) ''Moving to zero position...'')"

section \<open>Reading a payload back\<close>

text \<open>
  A subscriber gets the text in \<^verbatim>\<open>data_\<close>, and the properties below are about the JSON
  object that this text denotes. The decoder here reads the part of JSON that the
  encoder above writes: objects, keys without escapes, and numbers. It follows
  \<^verbatim>\<open>json.loads\<close>: white space around tokens is skipped; a number is the longest text of
  the form \<^verbatim>\<open>-?(0|[1-9][0-9]*)(\.[0-9]+)?([eE][-+]?[0-9]+)?\<close>, an int when it has neither
  a fraction nor an exponent and a float otherwise; where no number starts, \<^verbatim>\<open>NaN\<close>,
  \<^verbatim>\<open>Infinity\<close> and \<^verbatim>\<open>-Infinity\<close> are read as the floats that are not finite. Which
  float a number text denotes is the interpreter's \<^verbatim>\<open>float()\<close>, a parameter
  \<open>fparse :: string \<Rightarrow> 'f\<close>. Strings as values, arrays, \<^verbatim>\<open>true\<close>, \<^verbatim>\<open>false\<close>, \<^verbatim>\<open>null\<close>, and
  keys with an escape or a character outside printable ASCII are not in this part, and
  the decoder gives \<open>None\<close> for them. A decoded object is the list of its items in the
  order of the text; the objects of this program have no key twice.
\<close>

definition is_ws :: "char \<Rightarrow> bool" where
  "is_ws c = (c = CHR '' '' \<or> c = CHR 0x09 \<or> c = CHR 0x0A \<or> c = CHR 0x0D)"

definition skip_ws :: "string \<Rightarrow> string" where
  "skip_ws s = dropWhile is_ws s"

definition is_digit :: "char \<Rightarrow> bool" where
  "is_digit c = (48 \<le> (of_char c :: nat) \<and> (of_char c :: nat) \<le> 57)"

definition digit_val :: "char \<Rightarrow> nat" where
  "digit_val c = of_char c - 48"

definition nat_of_digits :: "string \<Rightarrow> nat" where
  "nat_of_digits s = foldl (\<lambda>a c. 10 * a + digit_val c) 0 s"

definition int_of_text :: "string \<Rightarrow> int" where
  "int_of_text s =
     (case s of
        [] \<Rightarrow> 0
      | c # r \<Rightarrow> if c = CHR ''-'' then - int (nat_of_digits r) else int (nat_of_digits s))"

text \<open>The digits at the head of a text, and the text after them.\<close>

definition scan_digits :: "string \<Rightarrow> string \<times> string" where
  "scan_digits s = (takeWhile is_digit s, dropWhile is_digit s)"

text \<open>The parts of a number text: integer part, fraction, exponent.\<close>

definition scan_unsigned :: "string \<Rightarrow> (string \<times> string) option" where
  "scan_unsigned s =
     (case s of
        [] \<Rightarrow> None
      | c # r \<Rightarrow>
          if c = CHR ''0'' then Some ([c], r)
          else if is_digit c then (case scan_digits r of (ds, r') \<Rightarrow> Some (c # ds, r'))
          else None)"

definition scan_int :: "string \<Rightarrow> (string \<times> string) option" where
  "scan_int s =
     (case s of
        [] \<Rightarrow> None
      | c # r \<Rightarrow>
          if c = CHR ''-''
          then (case scan_unsigned r of None \<Rightarrow> None | Some (i, r') \<Rightarrow> Some (c # i, r'))
          else scan_unsigned s)"

definition scan_frac :: "string \<Rightarrow> string \<times> string" where
  "scan_frac s =
     (case s of
        [] \<Rightarrow> ([], s)
      | c # r \<Rightarrow>
          if c = CHR ''.''
          then (case scan_digits r of (ds, r') \<Rightarrow> if ds = [] then ([], s) else (c # ds, r'))
          else ([], s))"

definition scan_sign :: "string \<Rightarrow> string \<times> string" where
  "scan_sign s =
     (case s of
        [] \<Rightarrow> ([], s)
      | c # r \<Rightarrow> if c = CHR ''+'' \<or> c = CHR ''-'' then ([c], r) else ([], s))"

definition scan_exp :: "string \<Rightarrow> string \<times> string" where
  "scan_exp s =
     (case s of
        [] \<Rightarrow> ([], s)
      | c # r \<Rightarrow>
          if c = CHR ''e'' \<or> c = CHR ''E''
          then (case scan_sign r of (sg, r') \<Rightarrow>
                  (case scan_digits r' of (ds, r'') \<Rightarrow>
                     if ds = [] then ([], s) else (c # sg @ ds, r'')))
          else ([], s))"

definition parse_number :: "(string \<Rightarrow> 'f) \<Rightarrow> string \<Rightarrow> ('f pyval \<times> string) option" where
  "parse_number fparse s =
     (case scan_int s of
        None \<Rightarrow> None
      | Some (i, r1) \<Rightarrow>
          (case scan_frac r1 of (f, r2) \<Rightarrow>
             (case scan_exp r2 of (e, r3) \<Rightarrow>
                if f = [] \<and> e = [] then Some (Num (IntNum (int_of_text i)), r3)
                else Some (Num (FloatNum (fparse (i @ f @ e))), r3))))"

text \<open>The three constants, tried where no number starts.\<close>

definition parse_constant :: "string \<Rightarrow> ('f pyval \<times> string) option" where
  "parse_constant s =
     (if take 3 s = ''NaN'' then Some (Num NaN, drop 3 s)
      else if take 8 s = ''Infinity'' then Some (Num PosInf, drop 8 s)
      else if take 9 s = ''-Infinity'' then Some (Num NegInf, drop 9 s)
      else None)"

text \<open>A number text that is read as a float: it has a fraction or an exponent.\<close>

definition float_literal :: "string \<Rightarrow> bool" where
  "float_literal t =
     (case scan_int t of
        None \<Rightarrow> False
      | Some (i, r1) \<Rightarrow>
          (case scan_frac r1 of (f, r2) \<Rightarrow>
             (case scan_exp r2 of (e, r3) \<Rightarrow> r3 = [] \<and> \<not> (f = [] \<and> e = []))))"

text \<open>
  A key is read up to its closing quote. \<open>plain_char\<close> are the characters that the
  encoder writes as they are: printable ASCII other than the double quote and the
  backslash.
\<close>

definition backslash :: char where
  "backslash = CHR 0x5C"

definition plain_char :: "char \<Rightarrow> bool" where
  "plain_char c = (c \<noteq> dquote \<and> c \<noteq> backslash \<and> 32 \<le> (of_char c :: nat) \<and> (of_char c :: nat) < 127)"

definition plain_key :: "string \<Rightarrow> bool" where
  "plain_key k = list_all plain_char k"

definition parse_key :: "string \<Rightarrow> (string \<times> string) option" where
  "parse_key s =
     (case s of
        [] \<Rightarrow> None
      | c # r \<Rightarrow>
          if c \<noteq> dquote then None
          else (case dropWhile plain_char r of
                  [] \<Rightarrow> None
                | c' # r' \<Rightarrow> if c' = dquote then Some (takeWhile plain_char r, r') else None))"

text \<open>
  A value and the items of an object. The first argument after \<open>fparse\<close> bounds the
  nesting of calls, so that the recursion is structural; \<open>json_loads\<close> passes the length
  of the text, and each call consumes at least one character.
\<close>

fun parse_value :: "(string \<Rightarrow> 'f) \<Rightarrow> nat \<Rightarrow> string \<Rightarrow> ('f pyval \<times> string) option"
  and parse_items :: "(string \<Rightarrow> 'f) \<Rightarrow> nat \<Rightarrow> string \<Rightarrow> ((string \<times> 'f pyval) list \<times> string) option" where
  "parse_value fparse 0 s = None"
| "parse_value fparse (Suc n) s =
     (case s of
        [] \<Rightarrow> None
      | c # r \<Rightarrow>
          if c = CHR ''{''
          then (case skip_ws r of
                  [] \<Rightarrow> None
                | c' # r' \<Rightarrow>
                    if c' = CHR ''}'' then Some (Dict [], r')
                    else (case parse_items fparse n (c' # r') of
                            None \<Rightarrow> None
                          | Some (d, r'') \<Rightarrow> Some (Dict d, r'')))
          else (case parse_number fparse s of
                  None \<Rightarrow> parse_constant s
                | Some (v, r') \<Rightarrow> Some (v, r')))"
| "parse_items fparse 0 s = None"
| "parse_items fparse (Suc n) s =
     (case parse_key s of
        None \<Rightarrow> None
      | Some (k, r1) \<Rightarrow>
          (case skip_ws r1 of
             [] \<Rightarrow> None
           | c # r2 \<Rightarrow>
               if c \<noteq> CHR '':'' then None
               else (case parse_value fparse n (skip_ws r2) of
                       None \<Rightarrow> None
                     | Some (v, r3) \<Rightarrow>
                         (case skip_ws r3 of
                            [] \<Rightarrow> None
                          | c' # r4 \<Rightarrow>
                              if c' = CHR '',''
                              then (case parse_items fparse n (skip_ws r4) of
                                      None \<Rightarrow> None
                                    | Some (d, r5) \<Rightarrow> Some ((k, v) # d, r5))
                              else if c' = CHR ''}'' then Some ([(k, v)], r4)
                              else None))))"

definition json_loads :: "(string \<Rightarrow> 'f) \<Rightarrow> string \<Rightarrow> 'f pyval option" where
  "json_loads fparse s =
     (case parse_value fparse (length s) (skip_ws s) of
        None \<Rightarrow> None
      | Some (v, r) \<Rightarrow> if skip_ws r = [] then Some v else None)"

text \<open>
  The values that are read back as they were written: their keys are plain and each
  finite float in them is printed as a number text with a fraction or an exponent (as
  \<^verbatim>\<open>repr\<close> prints every finite float) that \<open>fparse\<close> reads back as that float.
\<close>

fun decodable :: "('f \<Rightarrow> string) \<Rightarrow> (string \<Rightarrow> 'f) \<Rightarrow> 'f pyval \<Rightarrow> bool" where
  "decodable frepr fparse (Num (IntNum n)) = True"
| "decodable frepr fparse (Num (FloatNum x)) = (float_literal (frepr x) \<and> fparse (frepr x) = x)"
| "decodable frepr fparse (Num NaN) = True"
| "decodable frepr fparse (Num PosInf) = True"
| "decodable frepr fparse (Num NegInf) = True"
| "decodable frepr fparse (Dict d) = list_all (\<lambda>kv. plain_key (fst kv) \<and> decodable frepr fparse (snd kv)) d"

text \<open>A text that cannot continue a number: it is empty or starts with none of the number characters.\<close>

definition number_end :: "string \<Rightarrow> bool" where
  "number_end r = (case r of [] \<Rightarrow> True
                   | c # _ \<Rightarrow> \<not> is_digit c \<and> c \<noteq> CHR ''.'' \<and> c \<noteq> CHR ''e'' \<and> c \<noteq> CHR ''E'')"

section \<open>Callers\<close>

text \<open>The defaults of the optional parameters, as the signatures give them.\<close>

definition domain_id_default :: int where
  "domain_id_default = 0"

definition delay_ms_default :: int where
  "delay_ms_default = 0"

definition mode_default :: int where
  "mode_default = 0"

text \<open>A caller's program is a list of calls on one controller; an exception ends it.\<close>

datatype 'f command =
    MoveJoint int "'f number" int
  | MoveAllJoints "'f number list"
  | EnableJoints int
  | GoToZero

fun execute :: "('f \<Rightarrow> string) \<Rightarrow> controller \<Rightarrow> 'f command \<Rightarrow> outcome" where
  "execute frepr c (MoveJoint joint_id angle delay_ms) = move_joint frepr c joint_id angle delay_ms"
| "execute frepr c (MoveAllJoints angles) = move_all_joints frepr c angles"
| "execute frepr c (EnableJoints mode) = enable_joints frepr c mode"
| "execute frepr c GoToZero = go_to_zero frepr c"

fun run :: "('f \<Rightarrow> string) \<Rightarrow> controller \<Rightarrow> 'f command list \<Rightarrow> outcome" where
  "run frepr c [] = Returns c"
| "run frepr c (x # xs) =
     (case execute frepr c x of
        Returns c' \<Rightarrow> run frepr c' xs
      | Raises e c' \<Rightarrow> Raises e c')"

text \<open>The calls that pass validation, that is, the successful sends.\<close>

fun sends :: "'f command \<Rightarrow> bool" where
  "sends (MoveJoint joint_id angle delay_ms) = (0 \<le> joint_id \<and> joint_id \<le> 6)"
| "sends (MoveAllJoints angles) = (length angles = 7)"
| "sends (EnableJoints mode) = True"
| "sends GoToZero = True"

fun controller_of :: "outcome \<Rightarrow> controller" where
  "controller_of (Returns c) = c"
| "controller_of (Raises e c) = c"

text \<open>The messages a call on \<open>c\<close> published, given its outcome.\<close>

definition published :: "controller \<Rightarrow> outcome \<Rightarrow> ArmString list" where
  "published c out = drop (length (cmd_writer c)) (cmd_writer (controller_of out))"

text \<open>
  What the theorems on decoded floats assume of the interpreter: the repr of every
  finite float is a number text with a fraction or an exponent, and reading it gives
  the float back.
\<close>

definition float_codec :: "('f \<Rightarrow> string) \<Rightarrow> (string \<Rightarrow> 'f) \<Rightarrow> bool" where
  "float_codec frepr fparse = (\<forall>x. float_literal (frepr x) \<and> fparse (frepr x) = x)"

section \<open>Sample data\<close>

text \<open>
  A float type with two floats, 45.0 and -1.5e-07, with their reprs and a reading of
  number texts that inverts them; and a caller's program over it, whose second and fourth
  calls fail validation. The instances of the theorems below are stated on them.
\<close>

datatype float2 = F45 | Fsmall

fun repr2 :: "float2 \<Rightarrow> string" where
  "repr2 F45 = ''45.0''"
| "repr2 Fsmall = ''-1.5e-07''"

definition parse2 :: "string \<Rightarrow> float2" where
  "parse2 s = (if s = ''45.0'' then F45 else Fsmall)"

definition sample_program :: "float2 command list" where
  "sample_program =
     [MoveJoint 3 (FloatNum F45) 0,
      MoveJoint 7 (FloatNum Fsmall) 0,
      MoveAllJoints [IntNum 0, IntNum 10, FloatNum Fsmall, IntNum 30, IntNum 40, FloatNum F45, IntNum 60],
      MoveAllJoints [IntNum 1],
      EnableJoints 1,
      GoToZero]"

text \<open>A list of seven angles whose first is a not-a-number.\<close>

definition nan_angles :: "float2 number list" where
  "nan_angles = [NaN, IntNum 10, IntNum 20, IntNum 30, IntNum 40, IntNum 50, IntNum 60]"

text \<open>A controller that has been in use, with the counter of a fresh one.\<close>

definition other_controller :: controller where
  "other_controller =
     \<lparr>participant = 5, seq = 0, cmd_writer = [\<lparr>data = ''{}''\<rparr>], stdout = [''earlier line'']\<rparr>"

section \<open>The decoder reads back what the encoder writes\<close>

lemma is_digit_digit_char: "d < 10 \<Longrightarrow> is_digit (digit_char d)"
  by (simp add: is_digit_def digit_char_def)

lemma digit_val_digit_char: "d < 10 \<Longrightarrow> digit_val (digit_char d) = d"
  by (simp add: digit_val_def digit_char_def)

lemma digit_char_0: "digit_char 0 = CHR ''0''"
  by code_simp

lemma digit_char_zero: "d < 10 \<Longrightarrow> (digit_char d = CHR ''0'') = (d = 0)"
proof
  assume "digit_char d = CHR ''0''"
  then have "(of_char (digit_char d) :: nat) = of_char (CHR ''0'')" by simp
  moreover assume "d < 10"
  ultimately show "d = 0" by (simp add: digit_char_def)
next
  assume "d = 0"
  then show "digit_char d = CHR ''0''" by (simp add: digit_char_0)
qed

lemma digits_all_digit: "list_all is_digit (digits n)"
proof (induction n rule: digits.induct)
  case (1 n)
  show ?case
    using 1 by (subst digits.simps) (simp add: is_digit_digit_char)
qed

lemma digits_not_Nil: "digits n \<noteq> []"
  by (subst digits.simps) simp

lemma nat_of_digits_snoc: "nat_of_digits (s @ [c]) = 10 * nat_of_digits s + digit_val c"
  by (simp add: nat_of_digits_def)

lemma nat_of_digits_digits: "nat_of_digits (digits n) = n"
proof (induction n rule: digits.induct)
  case (1 n)
  show ?case
  proof (cases "n < 10")
    case True
    then show ?thesis
      by (subst digits.simps) (simp add: nat_of_digits_def digit_val_digit_char)
  next
    case False
    with 1 show ?thesis
      by (subst digits.simps) (simp add: nat_of_digits_snoc digit_val_digit_char)
  qed
qed

lemma hd_digits: "0 < n \<Longrightarrow> hd (digits n) \<noteq> CHR ''0''"
proof (induction n rule: digits.induct)
  case (1 n)
  show ?case
  proof (cases "n < 10")
    case True
    with 1(2) show ?thesis
      by (subst digits.simps) (simp add: digit_char_zero)
  next
    case False
    then have "0 < n div 10" by simp
    with 1 False show ?thesis
      by (subst digits.simps) (simp add: digits_not_Nil)
  qed
qed

lemma while_all: "list_all P xs \<Longrightarrow> takeWhile P ys = [] \<Longrightarrow>
    takeWhile P (xs @ ys) = xs \<and> dropWhile P (xs @ ys) = ys"
  by (induction xs) (auto simp: takeWhile_eq_Nil_iff dropWhile_eq_self_iff)

lemma while_inside: "dropWhile P xs \<noteq> [] \<Longrightarrow>
    takeWhile P (xs @ ys) = takeWhile P xs \<and> dropWhile P (xs @ ys) = dropWhile P xs @ ys"
  by (induction xs) auto

lemma number_end_digits: "number_end r \<Longrightarrow> takeWhile is_digit r = []"
  by (cases r) (auto simp: number_end_def)


lemma scan_digits_split: "scan_digits t = (ds, r) \<Longrightarrow> t = ds @ r"
  by (auto simp: scan_digits_def)

lemma scan_digits_inside:
  "scan_digits t = (ds, r) \<Longrightarrow> r \<noteq> [] \<Longrightarrow> scan_digits (t @ rest) = (ds, r @ rest)"
  by (auto simp: scan_digits_def while_inside)

lemma scan_digits_end:
  assumes "scan_digits t = (ds, [])" and "number_end rest"
  shows "scan_digits (t @ rest) = (ds, rest)"
proof -
  from assms(1) have "dropWhile is_digit t = []" and ds: "ds = takeWhile is_digit t"
    by (auto simp: scan_digits_def)
  then have all: "list_all is_digit t"
    by (simp add: list_all_iff)
  then have "ds = t"
    using ds by (simp add: list_all_iff)
  with while_all [OF all number_end_digits [OF assms(2)]] show ?thesis
    by (simp add: scan_digits_def)
qed

lemma scan_digits_number_end: "number_end rest \<Longrightarrow> scan_digits rest = ([], rest)"
  by (cases rest) (auto simp: scan_digits_def number_end_def)

lemma scan_unsigned_split: "scan_unsigned t = Some (i, r) \<Longrightarrow> t = i @ r"
  by (cases t) (auto simp: scan_unsigned_def dest: scan_digits_split split: if_splits prod.splits)

lemma scan_int_split: "scan_int t = Some (i, r) \<Longrightarrow> t = i @ r"
  by (cases t) (auto simp: scan_int_def dest: scan_unsigned_split split: if_splits option.splits)

lemma scan_frac_split: "scan_frac t = (f, r) \<Longrightarrow> t = f @ r"
  by (cases t) (auto simp: scan_frac_def dest: scan_digits_split split: if_splits prod.splits)

lemma scan_sign_split: "scan_sign t = (f, r) \<Longrightarrow> t = f @ r"
  by (cases t) (auto simp: scan_sign_def split: if_splits)

lemma scan_exp_split: "scan_exp t = (e, r) \<Longrightarrow> t = e @ r"
  by (cases t) (auto simp: scan_exp_def dest!: scan_digits_split scan_sign_split split: if_splits prod.splits)

lemma scan_unsigned_inside:
  "scan_unsigned t = Some (i, r) \<Longrightarrow> r \<noteq> [] \<Longrightarrow> scan_unsigned (t @ rest) = Some (i, r @ rest)"
  by (cases t) (auto simp: scan_unsigned_def scan_digits_inside split: if_splits prod.splits)

lemma scan_int_inside:
  "scan_int t = Some (i, r) \<Longrightarrow> r \<noteq> [] \<Longrightarrow> scan_int (t @ rest) = Some (i, r @ rest)"
  using scan_unsigned_inside [of t i r rest]
  by (cases t) (auto simp: scan_int_def scan_unsigned_inside split: if_splits option.splits)

lemma scan_unsigned_end:
  "scan_unsigned t = Some (i, []) \<Longrightarrow> number_end rest \<Longrightarrow> scan_unsigned (t @ rest) = Some (i, rest)"
  by (cases t) (auto simp: scan_unsigned_def scan_digits_end split: if_splits prod.splits)

lemma scan_int_end:
  "scan_int t = Some (i, []) \<Longrightarrow> number_end rest \<Longrightarrow> scan_int (t @ rest) = Some (i, rest)"
  using scan_unsigned_end [of t i rest]
  by (cases t) (auto simp: scan_int_def scan_unsigned_end split: if_splits option.splits)

lemma scan_frac_inside:
  "scan_frac t = (f, r) \<Longrightarrow> r \<noteq> [] \<Longrightarrow> number_end rest \<Longrightarrow> scan_frac (t @ rest) = (f, r @ rest)"
proof (cases t)
  case Nil
  then show "scan_frac t = (f, r) \<Longrightarrow> r \<noteq> [] \<Longrightarrow> ?thesis"
    by (simp add: scan_frac_def)
next
  case (Cons c u)
  assume a: "scan_frac t = (f, r)" "r \<noteq> []" "number_end rest"
  obtain ds u' where sd: "scan_digits u = (ds, u')" by (cases "scan_digits u")
  show ?thesis
  proof (cases "u' = []")
    case True
    with sd a(3) have "scan_digits (u @ rest) = (ds, rest)"
      by (simp add: scan_digits_end)
    with a sd Cons True show ?thesis
      by (auto simp: scan_frac_def split: if_splits)
  next
    case False
    with sd have "scan_digits (u @ rest) = (ds, u' @ rest)"
      by (simp add: scan_digits_inside)
    with a sd Cons show ?thesis
      by (auto simp: scan_frac_def split: if_splits)
  qed
qed

lemma scan_frac_end:
  "scan_frac t = (f, []) \<Longrightarrow> t \<noteq> [] \<Longrightarrow> number_end rest \<Longrightarrow> scan_frac (t @ rest) = (f, rest) \<and> f \<noteq> []"
  by (cases t) (auto simp: scan_frac_def scan_digits_end split: if_splits prod.splits)

lemma scan_frac_number_end: "number_end rest \<Longrightarrow> scan_frac rest = ([], rest)"
  by (cases rest) (auto simp: scan_frac_def number_end_def)

lemma scan_exp_number_end: "number_end rest \<Longrightarrow> scan_exp rest = ([], rest)"
  by (cases rest) (auto simp: scan_exp_def number_end_def)


lemma scan_exp_end:
  assumes "scan_exp t = (e, [])" and "t \<noteq> []" and "number_end rest"
  shows "scan_exp (t @ rest) = (e, rest) \<and> e \<noteq> []"
proof -
  obtain c u where t: "t = c # u" using assms(2) by (cases t) auto
  obtain sg u1 where sg: "scan_sign u = (sg, u1)" by (cases "scan_sign u")
  obtain ds u2 where ds: "scan_digits u1 = (ds, u2)" by (cases "scan_digits u1")
  from assms(1) t sg ds have c: "c = CHR ''e'' \<or> c = CHR ''E''" and "ds \<noteq> []" and u2: "u2 = []"
    and e: "e = c # sg @ ds"
    by (auto simp: scan_exp_def split: if_splits)
  from ds \<open>ds \<noteq> []\<close> have "u1 \<noteq> []" by (auto simp: scan_digits_def)
  with sg have sg': "scan_sign (u @ rest) = (sg, u1 @ rest)"
    by (cases u) (auto simp: scan_sign_def split: if_splits)
  from ds u2 assms(3) have "scan_digits (u1 @ rest) = (ds, rest)"
    by (simp add: scan_digits_end)
  with sg' c t e \<open>ds \<noteq> []\<close> show ?thesis
    by (auto simp: scan_exp_def)
qed

lemma scan_exp_Nil: "scan_exp [] = ([], [])"
  by (simp add: scan_exp_def)

lemma scan_frac_Nil: "scan_frac [] = ([], [])"
  by (simp add: scan_frac_def)

lemma parse_number_float:
  assumes "float_literal t" and "number_end rest"
  shows "parse_number fparse (t @ rest) = Some (Num (FloatNum (fparse t)), rest)"
proof -
  from assms(1) obtain i r1 f r2 e where
    i: "scan_int t = Some (i, r1)" and f: "scan_frac r1 = (f, r2)" and e: "scan_exp r2 = (e, [])"
    and fe: "\<not> (f = [] \<and> e = [])"
    by (auto simp: float_literal_def split: option.splits prod.splits)
  have t: "t = i @ f @ e"
    using scan_int_split [OF i] scan_frac_split [OF f] scan_exp_split [OF e] by simp
  have r1: "r1 \<noteq> []"
    using f e fe by (auto simp: scan_frac_Nil scan_exp_Nil)
  have i': "scan_int (t @ rest) = Some (i, r1 @ rest)"
    using i r1 by (rule scan_int_inside)
  show ?thesis
  proof (cases "r2 = []")
    case True
    with f r1 assms(2) have "scan_frac (r1 @ rest) = (f, rest)" and "f \<noteq> []"
      using scan_frac_end [of r1 f rest] by auto
    moreover from True e have "e = []" by (simp add: scan_exp_Nil)
    ultimately show ?thesis
      using i' t assms(2) by (simp add: parse_number_def scan_exp_number_end)
  next
    case False
    with f assms(2) have f': "scan_frac (r1 @ rest) = (f, r2 @ rest)"
      by (simp add: scan_frac_inside)
    from e False assms(2) have "scan_exp (r2 @ rest) = (e, rest)" and "e \<noteq> []"
      using scan_exp_end [of r2 e rest] by auto
    with i' f' t show ?thesis
      by (simp add: parse_number_def)
  qed
qed


lemma is_digit_not_special:
  "is_digit c \<Longrightarrow> c \<noteq> CHR ''-'' \<and> c \<noteq> CHR ''{'' \<and> \<not> is_ws c"
  by (auto simp: is_digit_def is_ws_def)

lemma digits_Cons: "\<exists>c cs. digits m = c # cs \<and> is_digit c \<and> list_all is_digit cs \<and> (0 < m \<longrightarrow> c \<noteq> CHR ''0'')"
proof -
  obtain c cs where d: "digits m = c # cs"
    using digits_not_Nil [of m] by (cases "digits m") auto
  with digits_all_digit [of m] hd_digits [of m] show ?thesis by auto
qed

lemma scan_unsigned_digits: "scan_unsigned (digits m) = Some (digits m, [])"
proof -
  obtain c cs where d: "digits m = c # cs" and c: "is_digit c" and cs: "list_all is_digit cs"
    and z: "0 < m \<longrightarrow> c \<noteq> CHR ''0''"
    using digits_Cons [of m] by blast
  show ?thesis
  proof (cases "m = 0")
    case True
    then have "digits m = [CHR ''0'']"
      by (subst digits.simps) (simp add: digit_char_0)
    then show ?thesis by (simp add: scan_unsigned_def)
  next
    case False
    from cs have "scan_digits cs = (cs, [])"
      by (simp add: scan_digits_def list_all_iff)
    with False d c z show ?thesis by (simp add: scan_unsigned_def)
  qed
qed

lemma scan_int_str_int: "scan_int (str_int n) = Some (str_int n, [])"
proof -
  obtain c cs where d: "digits (nat n) = c # cs" and c: "is_digit c"
    using digits_Cons [of "nat n"] by blast
  then show ?thesis
    using scan_unsigned_digits [of "nat n"] scan_unsigned_digits [of "nat (- n)"]
      is_digit_not_special [OF c]
    by (simp add: str_int_def scan_int_def)
qed

lemma int_of_text_str_int: "int_of_text (str_int n) = n"
proof -
  obtain c cs where d: "digits (nat n) = c # cs" and c: "is_digit c"
    using digits_Cons [of "nat n"] by blast
  then show ?thesis
    using nat_of_digits_digits [of "nat n"] is_digit_not_special [OF c]
    by (simp add: str_int_def int_of_text_def nat_of_digits_digits)
qed

lemma parse_number_int:
  assumes "number_end rest"
  shows "parse_number fparse (str_int n @ rest) = Some (Num (IntNum n), rest)"
  using scan_int_end [OF scan_int_str_int assms, of n] assms
  by (simp add: parse_number_def scan_frac_number_end scan_exp_number_end int_of_text_str_int)

lemma scan_unsigned_head: "scan_unsigned t = Some (i, r) \<Longrightarrow> \<exists>c u. t = c # u \<and> is_digit c"
  by (cases t) (auto simp: scan_unsigned_def is_digit_def split: if_splits)

lemma scan_int_head:
  "scan_int t = Some (i, r) \<Longrightarrow> \<exists>c u. t = c # u \<and> c \<noteq> CHR ''{'' \<and> \<not> is_ws c"
  by (cases t) (auto simp: scan_int_def is_ws_def dest!: scan_unsigned_head is_digit_not_special
      split: if_splits option.splits)

lemma parse_key_dumps_key:
  assumes "plain_key k"
  shows "parse_key (dumps_key k @ rest) = Some (k, rest)"
proof -
  have "takeWhile plain_char (dquote # rest) = []"
    by (simp add: plain_char_def)
  with assms have "takeWhile plain_char (k @ dquote # rest) = k"
    and "dropWhile plain_char (k @ dquote # rest) = dquote # rest"
    using while_all [of plain_char k "dquote # rest"] by (simp_all add: plain_key_def)
  then show ?thesis
    by (simp add: parse_key_def dumps_key_def)
qed


lemma skip_ws_Cons: "\<not> is_ws c \<Longrightarrow> skip_ws (c # r) = c # r"
  by (simp add: skip_ws_def)

lemma skip_ws_space: "skip_ws (CHR '' '' # r) = skip_ws r"
  by (simp add: skip_ws_def is_ws_def)

lemma not_ws_punct:
  "\<not> is_ws dquote" "\<not> is_ws (CHR '':'')" "\<not> is_ws (CHR '','')" "\<not> is_ws (CHR ''}'')" "\<not> is_ws (CHR ''{'')"
  by (simp_all add: is_ws_def dquote_def)

lemma number_end_punct: "number_end (CHR '','' # r)" "number_end (CHR ''}'' # r)" "number_end []"
  by (simp_all add: number_end_def is_digit_def)

lemma float_literal_head:
  "float_literal t \<Longrightarrow> \<exists>c u. t = c # u \<and> c \<noteq> CHR ''{'' \<and> \<not> is_ws c"
  by (auto simp: float_literal_def dest: scan_int_head split: option.splits)

lemma str_int_head: "\<exists>c u. str_int n = c # u \<and> c \<noteq> CHR ''{'' \<and> \<not> is_ws c"
  using scan_int_head [OF scan_int_str_int] .

lemma parse_number_not_constant:
  "parse_number fparse (CHR ''N'' # r) = None" "parse_number fparse (CHR ''I'' # r) = None"
  "parse_number fparse (CHR ''-'' # CHR ''I'' # r) = None"
  by (simp_all add: parse_number_def scan_int_def scan_unsigned_def is_digit_def)

lemma parse_value_number:
  assumes "decodable frepr fparse (Num x)" and "number_end rest"
  shows "parse_value fparse (Suc n) (dumps_number frepr x @ rest) = Some (Num x, rest)"
proof (cases x)
  case (IntNum i)
  obtain c u where "str_int i = c # u" and "c \<noteq> CHR ''{''"
    using str_int_head [of i] by blast
  with IntNum show ?thesis
    using parse_number_int [OF assms(2), of fparse i] by simp
next
  case (FloatNum y)
  with assms(1) have lit: "float_literal (frepr y)" and inv: "fparse (frepr y) = y" by simp_all
  obtain c u where "frepr y = c # u" and "c \<noteq> CHR ''{''"
    using float_literal_head [OF lit] by blast
  with FloatNum inv show ?thesis
    using parse_number_float [OF lit assms(2), of fparse] by simp
next
  case NaN
  then show ?thesis
    by (simp add: parse_number_not_constant parse_constant_def)
next
  case PosInf
  then show ?thesis
    by (simp add: parse_number_not_constant parse_constant_def)
next
  case NegInf
  then show ?thesis
    by (simp add: parse_number_not_constant parse_constant_def)
qed

lemma json_dumps_head:
  "decodable frepr fparse v \<Longrightarrow> \<exists>c u. json_dumps frepr v = c # u \<and> \<not> is_ws c"
proof (cases v)
  case (Num x)
  assume "decodable frepr fparse v"
  with Num show ?thesis
    using str_int_head float_literal_head by (cases x) (auto simp: is_ws_def, blast+)
next
  case (Dict d)
  then show ?thesis by (simp add: not_ws_punct)
qed

lemma dumps_items_head:
  "d \<noteq> [] \<Longrightarrow> \<exists>u. dumps_items frepr d = dquote # u"
proof (cases d)
  case Nil
  then show "d \<noteq> [] \<Longrightarrow> ?thesis" by simp
next
  case (Cons kv d')
  then show ?thesis
    by (cases kv; cases d') (simp_all add: dumps_key_def)
qed

lemma dquote_not_brace: "dquote \<noteq> CHR ''}''"
  by (simp add: dquote_def)

lemma roundtrip_fuel:
  fixes frepr :: "'f \<Rightarrow> string" and fparse :: "string \<Rightarrow> 'f"
  shows "decodable frepr fparse v \<Longrightarrow> length (json_dumps frepr v) \<le> n \<Longrightarrow> number_end rest \<Longrightarrow>
      parse_value fparse n (json_dumps frepr v @ rest) = Some (v, rest)"
    and "d \<noteq> [] \<Longrightarrow> list_all (\<lambda>kv. plain_key (fst kv) \<and> decodable frepr fparse (snd kv)) d \<Longrightarrow>
      length (dumps_items frepr d) \<le> m \<Longrightarrow>
      parse_items fparse m (dumps_items frepr d @ CHR ''}'' # rest') = Some (d, rest')"
proof (induction frepr v and frepr d arbitrary: n rest and m rest' rule: json_dumps_dumps_items.induct)
  case (1 frepr x)
  from 1(2) obtain n' where "n = Suc n'"
    using json_dumps_head [OF 1(1)] by (cases n) auto
  with 1 show ?case
    using parse_value_number [of frepr fparse x rest n'] by simp
next
  case (2 frepr d)
  from 2(3) obtain n' where n: "n = Suc n'" and len: "length (dumps_items frepr d) \<le> n'"
    by (cases n) auto
  show ?case
  proof (cases "d = []")
    case True
    with n show ?thesis by (simp add: skip_ws_Cons not_ws_punct)
  next
    case False
    then obtain u where u: "dumps_items frepr d = dquote # u"
      using dumps_items_head by blast
    have "parse_items fparse n' (dumps_items frepr d @ CHR ''}'' # rest) = Some (d, rest)"
      using 2(1) [OF False _ len] 2(2) by simp
    with u n show ?thesis
      by (simp add: skip_ws_Cons not_ws_punct dquote_not_brace)
  qed
next
  case (3 frepr)
  then show ?case by simp
next
  case (4 frepr k v)
  from 4(3) have k: "plain_key k" and v: "decodable frepr fparse v" by simp_all
  from 4(4) obtain m' where m: "m = Suc m'" and len: "length (json_dumps frepr v) \<le> m'"
    by (cases m) (auto simp: dumps_key_def)
  obtain c u where c: "json_dumps frepr v = c # u" "\<not> is_ws c"
    using json_dumps_head [OF v] by blast
  have pv: "parse_value fparse m' (json_dumps frepr v @ CHR ''}'' # rest') = Some (v, CHR ''}'' # rest')"
    using 4(1) [OF v len] by (simp add: number_end_punct)
  have "parse_key (dumps_key k @ '': '' @ json_dumps frepr v @ CHR ''}'' # rest')
      = Some (k, '': '' @ json_dumps frepr v @ CHR ''}'' # rest')"
    using k by (rule parse_key_dumps_key)
  then show ?case
    using m pv c by (simp add: skip_ws_Cons skip_ws_space not_ws_punct)
next
  case (5 frepr k v kv d)
  from 5(4) have k: "plain_key k" and v: "decodable frepr fparse v"
    and d: "list_all (\<lambda>kv. plain_key (fst kv) \<and> decodable frepr fparse (snd kv)) (kv # d)"
    by simp_all
  from 5(5) obtain m' where m: "m = Suc m'" and len: "length (json_dumps frepr v) \<le> m'"
    and len': "length (dumps_items frepr (kv # d)) \<le> m'"
    by (cases m) (auto simp: dumps_key_def)
  obtain c u where c: "json_dumps frepr v = c # u" "\<not> is_ws c"
    using json_dumps_head [OF v] by blast
  obtain w where w: "dumps_items frepr (kv # d) = dquote # w"
    using dumps_items_head [of "kv # d" frepr] by auto
  let ?more = "dumps_items frepr (kv # d) @ CHR ''}'' # rest'"
  have pv: "parse_value fparse m' (json_dumps frepr v @ '', '' @ ?more) = Some (v, '', '' @ ?more)"
    using 5(1) [OF v len, of "'', '' @ ?more"] by (simp add: number_end_punct)
  have pi: "parse_items fparse m' ?more = Some (kv # d, rest')"
    using 5(2) [OF _ d len'] by simp
  have "parse_key (dumps_key k @ '': '' @ json_dumps frepr v @ '', '' @ ?more)
      = Some (k, '': '' @ json_dumps frepr v @ '', '' @ ?more)"
    using k by (rule parse_key_dumps_key)
  then show ?case
    using m pv pi c w by (simp add: skip_ws_Cons skip_ws_space not_ws_punct)
qed

lemma skip_ws_Nil: "skip_ws [] = []"
  by (simp add: skip_ws_def)

lemma json_loads_json_dumps:
  "decodable frepr fparse v \<Longrightarrow> json_loads fparse (json_dumps frepr v) = Some v"
  using roundtrip_fuel(1) [of frepr fparse v "length (json_dumps frepr v)" "[]"]
    json_dumps_head [of frepr fparse v]
  by (auto simp: json_loads_def skip_ws_Cons skip_ws_Nil number_end_punct)

text \<open>
  The decoder on texts that the encoder does not write: white space is skipped, the
  three constants are read, and a misspelt constant, a trailing comma, a leading zero,
  text after the object, a missing colon and the empty text are errors.
\<close>

lemma json_loads_examples:
  \<open>json_loads parse2 ''  {"a" :{ } ,  "b":{"c":45.0 , "d" : -12}  } ''
     = Some (Dict [(''a'', Dict []),
                   (''b'', Dict [(''c'', Num (FloatNum F45)), (''d'', Num (IntNum (- 12)))])])\<close>
  \<open>json_loads parse2 ''{"a": NaN, "b": -Infinity, "c": Infinity, "d": -1}''
     = Some (Dict [(''a'', Num NaN), (''b'', Num NegInf), (''c'', Num PosInf),
                   (''d'', Num (IntNum (- 1)))])\<close>
  \<open>json_loads parse2 ''{"a": Nan}'' = None\<close>
  \<open>json_loads parse2 ''{"a":1,}'' = None\<close>
  \<open>json_loads parse2 ''{"a":01}'' = None\<close>
  \<open>json_loads parse2 ''{"a":1} x'' = None\<close>
  \<open>json_loads parse2 ''{"a" 1}'' = None\<close>
  \<open>json_loads parse2 [] = None\<close>
  by code_simp+

section \<open>What each command does\<close>

lemma lookup_setitem: "lookup (setitem d k v) k' = (if k' = k then Some v else lookup d k')"
  by (induction d) auto

lemma list_all_setitem: "list_all P d \<Longrightarrow> P (k, v) \<Longrightarrow> list_all P (setitem d k v)"
  by (induction d) auto

lemma plain_key_names:
  "plain_key ''funcode''" "plain_key ''data''" "plain_key ''seq''" "plain_key ''address''"
  "plain_key ''id''" "plain_key ''angle''" "plain_key ''delay_ms''" "plain_key ''mode''"
  "plain_key ''angle0''" "plain_key ''angle1''" "plain_key ''angle2''" "plain_key ''angle3''"
  "plain_key ''angle4''" "plain_key ''angle5''" "plain_key ''angle6''"
  by (simp_all add: plain_key_def plain_char_def dquote_def backslash_def)

lemma decodable_int: "decodable frepr fparse (Num (IntNum n))"
  by simp

lemma send_decoded:
  assumes "decodable frepr fparse (Dict payload)"
  shows "\<exists>m. send frepr c payload = c\<lparr>cmd_writer := cmd_writer c @ [m], seq := seq c + 1\<rparr>
           \<and> json_loads fparse (data m)
             = Some (Dict (setitem (setitem payload ''seq'' (Num (IntNum (seq c))))
                             ''address'' (Num (IntNum 1))))"
proof -
  let ?p = "setitem (setitem payload ''seq'' (Num (IntNum (seq c)))) ''address'' (Num (IntNum 1))"
  from assms have "decodable frepr fparse (Dict ?p)"
    by (simp add: list_all_setitem plain_key_names)
  then have "json_loads fparse (json_dumps frepr (Dict ?p)) = Some (Dict ?p)"
    by (rule json_loads_json_dumps)
  then show ?thesis
    by (intro exI [of _ "\<lparr>data = json_dumps frepr (Dict ?p)\<rparr>"]) (simp add: send_def Let_def)
qed

lemma getitem_JOINT_NAMES:
  "0 \<le> j \<Longrightarrow> j \<le> 6 \<Longrightarrow> getitem JOINT_NAMES j = Some (JOINT_NAMES ! nat j)"
  by (simp add: getitem_def JOINT_NAMES_def)

lemma getitem_in_range:
  "0 \<le> i \<Longrightarrow> i < int (length xs) \<Longrightarrow> getitem xs i = Some (xs ! nat i)"
  by (simp add: getitem_def)

lemma move_joint_rejects:
  assumes "joint_id < 0 \<or> joint_id > 6"
  shows "move_joint frepr c joint_id angle delay_ms
         = Returns (c\<lparr>stdout := stdout c @ [''Error: joint_id must be 0-6, got '' @ str_int joint_id]\<rparr>)"
  using assms by (simp add: move_joint_def print_def)

lemma move_all_joints_rejects:
  assumes "length angles \<noteq> 7"
  shows "move_all_joints frepr c angles
         = Returns (c\<lparr>stdout := stdout c @ [''Error: expected 7 angles, got '' @ str_int (int (length angles))]\<rparr>)"
  using assms by (simp add: move_all_joints_def print_def)

lemma move_joint_sends:
  assumes "0 \<le> joint_id" and "joint_id \<le> 6" and "decodable frepr fparse (Num angle)"
  shows "\<exists>c' m. move_joint frepr c joint_id angle delay_ms = Returns c'
           \<and> seq c' = seq c + 1 \<and> participant c' = participant c
           \<and> cmd_writer c' = cmd_writer c @ [m]
           \<and> json_loads fparse (data m)
             = Some (Dict [(''funcode'', Num (IntNum 1)),
                           (''data'', Dict [(''id'', Num (IntNum joint_id)),
                                            (''angle'', Num angle),
                                            (''delay_ms'', Num (IntNum delay_ms))]),
                           (''seq'', Num (IntNum (seq c))),
                           (''address'', Num (IntNum 1))])"
proof -
  let ?payload = "[(''funcode'', Num (IntNum 1)),
                   (''data'', Dict [(''id'', Num (IntNum joint_id)), (''angle'', Num angle),
                                    (''delay_ms'', Num (IntNum delay_ms))])]"
  have "decodable frepr fparse (Dict ?payload)"
    using assms(3) by (simp add: plain_key_names)
  from send_decoded [OF this, of c] obtain m where
    "send frepr c ?payload = c\<lparr>cmd_writer := cmd_writer c @ [m], seq := seq c + 1\<rparr>"
    and "json_loads fparse (data m)
         = Some (Dict (setitem (setitem ?payload ''seq'' (Num (IntNum (seq c))))
                         ''address'' (Num (IntNum 1))))"
    by blast
  then show ?thesis
    using assms(1,2) by (simp add: move_joint_def getitem_JOINT_NAMES print_def)
qed

lemma move_all_joints_sends:
  assumes "length angles = 7" and "list_all (\<lambda>a. decodable frepr fparse (Num a)) angles"
  shows "\<exists>c' m. move_all_joints frepr c angles = Returns c'
           \<and> seq c' = seq c + 1 \<and> participant c' = participant c
           \<and> cmd_writer c' = cmd_writer c @ [m]
           \<and> json_loads fparse (data m)
             = Some (Dict [(''funcode'', Num (IntNum 2)),
                           (''data'', Dict [(''mode'', Num (IntNum 1)),
                                            (''angle0'', Num (angles ! 0)), (''angle1'', Num (angles ! 1)),
                                            (''angle2'', Num (angles ! 2)), (''angle3'', Num (angles ! 3)),
                                            (''angle4'', Num (angles ! 4)), (''angle5'', Num (angles ! 5)),
                                            (''angle6'', Num (angles ! 6))]),
                           (''seq'', Num (IntNum (seq c))),
                           (''address'', Num (IntNum 1))])"
proof -
  let ?payload = "[(''funcode'', Num (IntNum 2)),
                   (''data'', Dict [(''mode'', Num (IntNum 1)),
                                    (''angle0'', Num (angles ! 0)), (''angle1'', Num (angles ! 1)),
                                    (''angle2'', Num (angles ! 2)), (''angle3'', Num (angles ! 3)),
                                    (''angle4'', Num (angles ! 4)), (''angle5'', Num (angles ! 5)),
                                    (''angle6'', Num (angles ! 6))])]"
  have each: "decodable frepr fparse (Num (angles ! i))" if "i < 7" for i
    using assms that by (simp add: list_all_length)
  have "decodable frepr fparse (Dict ?payload)"
    by (simp add: plain_key_names each)
  from send_decoded [OF this, of c] obtain m where
    "send frepr c ?payload = c\<lparr>cmd_writer := cmd_writer c @ [m], seq := seq c + 1\<rparr>"
    and "json_loads fparse (data m)
         = Some (Dict (setitem (setitem ?payload ''seq'' (Num (IntNum (seq c))))
                         ''address'' (Num (IntNum 1))))"
    by blast
  then show ?thesis
    using assms(1) by (simp add: move_all_joints_def getitem_in_range print_def)
qed

lemma enable_joints_sends:
  fixes frepr :: "'f \<Rightarrow> string" and fparse :: "string \<Rightarrow> 'f"
  shows "\<exists>c' m. enable_joints frepr c mode = Returns c'
           \<and> seq c' = seq c + 1 \<and> participant c' = participant c
           \<and> cmd_writer c' = cmd_writer c @ [m]
           \<and> json_loads fparse (data m)
             = Some (Dict [(''funcode'', Num (IntNum 5)),
                           (''data'', Dict [(''mode'', Num (IntNum mode))]),
                           (''seq'', Num (IntNum (seq c))),
                           (''address'', Num (IntNum 1))])"
proof -
  let ?payload = "[(''funcode'', Num (IntNum 5)), (''data'', Dict [(''mode'', Num (IntNum mode))])]"
  have "decodable frepr fparse (Dict ?payload)"
    by (simp add: plain_key_names)
  from send_decoded [OF this, of c] obtain m where
    "send frepr c ?payload = c\<lparr>cmd_writer := cmd_writer c @ [m], seq := seq c + 1\<rparr>"
    and "json_loads fparse (data m)
         = Some (Dict (setitem (setitem ?payload ''seq'' (Num (IntNum (seq c))))
                         ''address'' (Num (IntNum 1))))"
    by blast
  then show ?thesis
    by (simp add: enable_joints_def print_def)
qed

lemma go_to_zero_sends:
  fixes frepr :: "'f \<Rightarrow> string" and fparse :: "string \<Rightarrow> 'f"
  shows "\<exists>c' m. go_to_zero frepr c = Returns c'
           \<and> seq c' = seq c + 1 \<and> participant c' = participant c
           \<and> cmd_writer c' = cmd_writer c @ [m]
           \<and> json_loads fparse (data m)
             = Some (Dict [(''funcode'', Num (IntNum 7)),
                           (''seq'', Num (IntNum (seq c))),
                           (''address'', Num (IntNum 1))])"
proof -
  let ?payload = "[(''funcode'', Num (IntNum 7))] :: (string \<times> 'f pyval) list"
  have "decodable frepr fparse (Dict ?payload)"
    by (simp add: plain_key_names)
  from send_decoded [OF this, of c] obtain m where
    "send frepr c ?payload = c\<lparr>cmd_writer := cmd_writer c @ [m], seq := seq c + 1\<rparr>"
    and "json_loads fparse (data m)
         = Some (Dict (setitem (setitem ?payload ''seq'' (Num (IntNum (seq c))))
                         ''address'' (Num (IntNum 1))))"
    by blast
  then show ?thesis
    by (simp add: go_to_zero_def print_def)
qed


lemma float_literal_samples: "float_literal ''45.0''" "float_literal ''-1.5e-07''"
  by code_simp+

lemma float_codec2: "float_codec repr2 parse2"
proof -
  have "float_literal (repr2 x) \<and> parse2 (repr2 x) = x" for x
    by (cases x) (simp_all add: float_literal_samples parse2_def)
  then show ?thesis by (simp add: float_codec_def)
qed

lemma decodable_codec: "float_codec frepr fparse \<Longrightarrow> decodable frepr fparse (Num a)"
  by (cases a) (simp_all add: float_codec_def)

lemma execute_sends:
  assumes "float_codec frepr fparse" and "sends x"
  shows "\<exists>c' m d. execute frepr c x = Returns c' \<and> seq c' = seq c + 1
           \<and> cmd_writer c' = cmd_writer c @ [m]
           \<and> json_loads fparse (data m) = Some (Dict d)
           \<and> lookup d ''seq'' = Some (Num (IntNum (seq c)))
           \<and> lookup d ''address'' = Some (Num (IntNum 1))"
proof (cases x)
  case (MoveJoint j a dl)
  with assms(2) have "0 \<le> j" "j \<le> 6" by simp_all
  from move_joint_sends [OF this decodable_codec [OF assms(1)], where c = c and angle = a
      and delay_ms = dl] MoveJoint
  show ?thesis by fastforce
next
  case (MoveAllJoints as)
  with assms(2) have "length as = 7" by simp
  moreover have "list_all (\<lambda>a. decodable frepr fparse (Num a)) as"
    using decodable_codec [OF assms(1)] by (simp add: list_all_iff)
  ultimately show ?thesis
    using move_all_joints_sends [where c = c and angles = as and frepr = frepr and fparse = fparse]
      MoveAllJoints by fastforce
next
  case (EnableJoints mode)
  then show ?thesis
    using enable_joints_sends [where c = c and frepr = frepr and fparse = fparse and mode = mode]
    by fastforce
next
  case GoToZero
  then show ?thesis
    using go_to_zero_sends [where c = c and frepr = frepr and fparse = fparse] by fastforce
qed

lemma execute_rejects:
  assumes "\<not> sends x"
  shows "\<exists>c'. execute frepr c x = Returns c' \<and> seq c' = seq c \<and> cmd_writer c' = cmd_writer c"
proof (cases x)
  case (MoveJoint j a dl)
  with assms have "j < 0 \<or> j > 6" by auto
  from move_joint_rejects [OF this, where c = c and frepr = frepr] MoveJoint show ?thesis by simp
next
  case (MoveAllJoints as)
  with assms have "length as \<noteq> 7" by simp
  from move_all_joints_rejects [OF this, where c = c and frepr = frepr] MoveAllJoints
  show ?thesis by simp
qed (use assms in simp_all)

lemma run_sends:
  assumes "float_codec frepr fparse"
  shows "\<exists>c' new. run frepr c cs = Returns c'
           \<and> seq c' = seq c + int (length (filter sends cs))
           \<and> cmd_writer c' = cmd_writer c @ new
           \<and> length new = length (filter sends cs)
           \<and> (\<forall>n<length new. \<exists>d. json_loads fparse (data (new ! n)) = Some (Dict d)
                  \<and> lookup d ''seq'' = Some (Num (IntNum (seq c + int n)))
                  \<and> lookup d ''address'' = Some (Num (IntNum 1)))"
proof (induction cs arbitrary: c)
  case Nil
  then show ?case by simp
next
  case (Cons x xs)
  show ?case
  proof (cases "sends x")
    case True
    from execute_sends [OF assms True, of c] obtain c1 m d where
      x: "execute frepr c x = Returns c1" and s1: "seq c1 = seq c + 1"
      and w1: "cmd_writer c1 = cmd_writer c @ [m]"
      and m: "json_loads fparse (data m) = Some (Dict d)"
        "lookup d ''seq'' = Some (Num (IntNum (seq c)))"
        "lookup d ''address'' = Some (Num (IntNum 1))"
      by blast
    from Cons.IH [of c1] obtain c' new where
      r: "run frepr c1 xs = Returns c'"
      and s': "seq c' = seq c1 + int (length (filter sends xs))"
      and w': "cmd_writer c' = cmd_writer c1 @ new"
      and l: "length new = length (filter sends xs)"
      and each: "\<forall>n<length new. \<exists>d. json_loads fparse (data (new ! n)) = Some (Dict d)
                  \<and> lookup d ''seq'' = Some (Num (IntNum (seq c1 + int n)))
                  \<and> lookup d ''address'' = Some (Num (IntNum 1))"
      by blast
    have "\<exists>d. json_loads fparse (data ((m # new) ! n)) = Some (Dict d)
                  \<and> lookup d ''seq'' = Some (Num (IntNum (seq c + int n)))
                  \<and> lookup d ''address'' = Some (Num (IntNum 1))" if "n < length (m # new)" for n
    proof (cases n)
      case 0
      with m show ?thesis by simp
    next
      case (Suc k)
      with that have "k < length new" by simp
      with each s1 Suc show ?thesis by (simp add: add.assoc)
    qed
    with x r s' s1 w' w1 l True show ?thesis
      by (intro exI [of _ c'] exI [of _ "m # new"]) simp
  next
    case False
    from execute_rejects [OF False, of frepr c] obtain c1 where
      x: "execute frepr c x = Returns c1" and s1: "seq c1 = seq c"
      and w1: "cmd_writer c1 = cmd_writer c"
      by blast
    from Cons.IH [of c1] x s1 w1 False show ?thesis by simp
  qed
qed

section \<open>Helper facts for the instances\<close>

lemma count_sample_program: "length (filter sends sample_program) = 4"
  by (simp add: sample_program_def)

lemma str_int_small:
  "str_int 0 = ''0''" "str_int 1 = ''1''" "str_int 2 = ''2''" "str_int 3 = ''3''"
  "str_int 4 = ''4''" "str_int 5 = ''5''" "str_int 6 = ''6''" "str_int 7 = ''7''"
  by code_simp+

lemma published_one: "cmd_writer c' = cmd_writer c @ ms \<Longrightarrow> published c (Returns c') = ms"
  by (simp add: published_def)

lemma send_eq:
  "send frepr c payload =
     c\<lparr>cmd_writer := cmd_writer c @
          [\<lparr>data = json_dumps frepr (Dict (setitem (setitem payload ''seq'' (Num (IntNum (seq c))))
                                                 ''address'' (Num (IntNum 1))))\<rparr>],
       seq := seq c + 1\<rparr>"
  by (simp add: send_def Let_def)

lemma init_fields:
  "seq (init d) = 0" "cmd_writer (init d) = []" "participant (init d) = d"
  by (simp_all add: init_def print_def)

lemma published_print: "published c (Returns (print c line)) = []"
  by (simp add: published_def print_def)

lemma published_send:
  "published c (Returns (print (send frepr c payload) line))
   = [\<lparr>data = json_dumps frepr (Dict (setitem (setitem payload ''seq'' (Num (IntNum (seq c))))
                                            ''address'' (Num (IntNum 1))))\<rparr>]"
  by (simp add: published_def print_def send_def Let_def)

lemma published_move_joint:
  "published c (move_joint frepr c joint_id angle delay_ms)
   = (if joint_id < 0 \<or> joint_id > 6 then []
      else [\<lparr>data = json_dumps frepr
                       (Dict (setitem (setitem
                          [(''funcode'', Num (IntNum 1)),
                           (''data'', Dict [(''id'', Num (IntNum joint_id)), (''angle'', Num angle),
                                            (''delay_ms'', Num (IntNum delay_ms))])]
                          ''seq'' (Num (IntNum (seq c)))) ''address'' (Num (IntNum 1))))\<rparr>])"
  by (simp add: move_joint_def getitem_JOINT_NAMES published_print published_send
      del: json_dumps.simps setitem.simps)

lemma published_move_all_joints:
  "published c (move_all_joints frepr c angles)
   = (if length angles \<noteq> 7 then []
      else [\<lparr>data = json_dumps frepr
                       (Dict (setitem (setitem
                          [(''funcode'', Num (IntNum 2)),
                           (''data'', Dict [(''mode'', Num (IntNum 1)),
                                            (''angle0'', Num (angles ! 0)), (''angle1'', Num (angles ! 1)),
                                            (''angle2'', Num (angles ! 2)), (''angle3'', Num (angles ! 3)),
                                            (''angle4'', Num (angles ! 4)), (''angle5'', Num (angles ! 5)),
                                            (''angle6'', Num (angles ! 6))])]
                          ''seq'' (Num (IntNum (seq c)))) ''address'' (Num (IntNum 1))))\<rparr>])"
  by (simp add: move_all_joints_def getitem_in_range published_print published_send
      del: json_dumps.simps setitem.simps)

lemma execute_counts:
  "\<exists>c' ms. execute frepr c x = Returns c'
      \<and> seq c' = seq c + (if sends x then 1 else 0)
      \<and> cmd_writer c' = cmd_writer c @ ms
      \<and> length ms = (if sends x then 1 else 0)"
proof (cases x)
  case (MoveJoint j a dl)
  then show ?thesis
    by (simp add: move_joint_def getitem_JOINT_NAMES send_eq print_def
        del: json_dumps.simps setitem.simps)
next
  case (MoveAllJoints as)
  then show ?thesis
    by (simp add: move_all_joints_def getitem_in_range send_eq print_def
        del: json_dumps.simps setitem.simps)
next
  case (EnableJoints mode)
  then show ?thesis
    by (simp add: enable_joints_def send_eq print_def del: json_dumps.simps setitem.simps)
next
  case GoToZero
  then show ?thesis
    by (simp add: go_to_zero_def send_eq print_def del: json_dumps.simps setitem.simps)
qed

lemma run_counts:
  "\<exists>c' new. run frepr c cs = Returns c'
      \<and> seq c' = seq c + int (length (filter sends cs))
      \<and> cmd_writer c' = cmd_writer c @ new
      \<and> length new = length (filter sends cs)"
proof (induction cs arbitrary: c)
  case Nil
  then show ?case by simp
next
  case (Cons x xs)
  from execute_counts [of frepr c x] obtain c1 ms where
    x: "execute frepr c x = Returns c1" and s1: "seq c1 = seq c + (if sends x then 1 else 0)"
    and w1: "cmd_writer c1 = cmd_writer c @ ms" and l1: "length ms = (if sends x then 1 else 0)"
    by blast
  from Cons.IH [of c1] obtain c' new where
    r: "run frepr c1 xs = Returns c'"
    and s': "seq c' = seq c1 + int (length (filter sends xs))"
    and w': "cmd_writer c' = cmd_writer c1 @ new"
    and l: "length new = length (filter sends xs)"
    by blast
  from x r s' s1 w' w1 l l1 show ?case
    by (intro exI [of _ c'] exI [of _ "ms @ new"]) simp
qed

lemma py_eq_iff: "py_eq a b \<longleftrightarrow> a = b \<and> a \<noteq> NaN"
  by (cases a; cases b) auto

lemma str_int_tens:
  "str_int 10 = ''10''" "str_int 20 = ''20''" "str_int 30 = ''30''"
  "str_int 40 = ''40''" "str_int 50 = ''50''" "str_int 60 = ''60''"
  by code_simp+

lemma nan_payload_decodable:
  "decodable repr2 parse2
     (Dict [(''funcode'', Num (IntNum 2)),
            (''data'', Dict [(''mode'', Num (IntNum 1)),
                             (''angle0'', Num NaN), (''angle1'', Num (IntNum 10)),
                             (''angle2'', Num (IntNum 20)), (''angle3'', Num (IntNum 30)),
                             (''angle4'', Num (IntNum 40)), (''angle5'', Num (IntNum 50)),
                             (''angle6'', Num (IntNum 60))]),
            (''seq'', Num (IntNum 0)),
            (''address'', Num (IntNum 1))])"
  by (simp add: plain_key_names)

section \<open>The sequence counter\<close>

text \<open>
  C1. A controller is constructed with its counter at 0 and nothing published. Running
  any list of calls from any controller state returns; the counter goes up by exactly
  the number of calls that pass validation (the successful sends), and one message is
  published for each of them. Where floats are read back from their repr, the \<open>n\<close>-th of
  these messages, counting from 0, decodes to an object whose \<^verbatim>\<open>seq\<close> is the counter
  before the run plus \<open>n\<close>; from a fresh controller that is \<open>n\<close>. Nothing resets the
  counter.
\<close>

theorem seq_counts_sends:
  "seq (init domain_id) = 0 \<and> cmd_writer (init domain_id) = []
   \<and> (\<exists>c' new. run frepr c cs = Returns c'
         \<and> seq c' = seq c + int (length (filter sends cs))
         \<and> cmd_writer c' = cmd_writer c @ new
         \<and> length new = length (filter sends cs)
         \<and> (float_codec frepr fparse \<longrightarrow>
              (\<forall>n<length new. \<exists>d. json_loads fparse (data (new ! n)) = Some (Dict d)
                  \<and> lookup d ''seq'' = Some (Num (IntNum (seq c + int n))))))"
proof -
  from run_counts [of frepr c cs] obtain c' new where
    r: "run frepr c cs = Returns c'" and s: "seq c' = seq c + int (length (filter sends cs))"
    and w: "cmd_writer c' = cmd_writer c @ new" and l: "length new = length (filter sends cs)"
    by blast
  have "\<forall>n<length new. \<exists>d. json_loads fparse (data (new ! n)) = Some (Dict d)
            \<and> lookup d ''seq'' = Some (Num (IntNum (seq c + int n)))"
    if "float_codec frepr fparse"
  proof -
    from run_sends [OF that, of c cs] obtain c2 new2 where
      "run frepr c cs = Returns c2" and "cmd_writer c2 = cmd_writer c @ new2"
      and each: "\<forall>n<length new2. \<exists>d. json_loads fparse (data (new2 ! n)) = Some (Dict d)
                  \<and> lookup d ''seq'' = Some (Num (IntNum (seq c + int n)))
                  \<and> lookup d ''address'' = Some (Num (IntNum 1))"
      by blast
    with r w have "new2 = new" by simp
    with each show ?thesis by blast
  qed
  with r s w l show ?thesis
    by (simp add: init_fields)
qed

theorem seq_counts_sends_witness:
  "float_codec repr2 parse2
   \<and> (\<exists>c' new. run repr2 (init 0) sample_program = Returns c'
         \<and> seq c' = 4 \<and> cmd_writer c' = new \<and> length new = 4
         \<and> (\<forall>n<4. \<exists>d. json_loads parse2 (data (new ! n)) = Some (Dict d)
                \<and> lookup d ''seq'' = Some (Num (IntNum (int n)))))"
proof -
  from seq_counts_sends [of 0 repr2 "init 0" sample_program parse2] float_codec2
  show ?thesis
    by (simp add: count_sample_program init_fields) metis
qed

section \<open>Validation errors\<close>

text \<open>
  C2. For a joint id below 0 or above 6, whatever the angle and the delay,
  \<^verbatim>\<open>move_joint\<close> returns to its caller (no exception), prints the error line, publishes
  nothing, and leaves the counter, the published messages and the participant as they
  were.
\<close>

theorem move_joint_bad_joint_id:
  assumes "joint_id < 0 \<or> joint_id > 6"
  shows "\<exists>c'. move_joint frepr c joint_id angle delay_ms = Returns c'
           \<and> stdout c' = stdout c @ [''Error: joint_id must be 0-6, got '' @ str_int joint_id]
           \<and> published c (Returns c') = []
           \<and> cmd_writer c' = cmd_writer c \<and> seq c' = seq c \<and> participant c' = participant c"
  using move_joint_rejects [OF assms, of frepr c angle delay_ms]
  by (simp add: published_def)

theorem move_joint_bad_joint_id_witness:
  "\<exists>c'. move_joint repr2 (init 0) 7 (FloatNum F45) 0 = Returns c'
           \<and> stdout c' = stdout (init 0) @ [''Error: joint_id must be 0-6, got 7'']
           \<and> published (init 0) (Returns c') = []
           \<and> cmd_writer c' = [] \<and> seq c' = 0 \<and> participant c' = 0"
proof -
  have "(7::int) < 0 \<or> (7::int) > 6" by simp
  from move_joint_bad_joint_id [OF this, of repr2 "init 0" "FloatNum F45" 0]
  show ?thesis
    by (simp add: str_int_small) (simp add: init_def print_def)
qed

text \<open>
  C3. For a list of angles whose length is not 7, \<^verbatim>\<open>move_all_joints\<close> returns, prints
  the error line, publishes nothing, and leaves the counter, the published messages and
  the participant as they were.
\<close>

theorem move_all_joints_bad_length:
  assumes "length angles \<noteq> 7"
  shows "\<exists>c'. move_all_joints frepr c angles = Returns c'
           \<and> stdout c' = stdout c @ [''Error: expected 7 angles, got '' @ str_int (int (length angles))]
           \<and> published c (Returns c') = []
           \<and> cmd_writer c' = cmd_writer c \<and> seq c' = seq c \<and> participant c' = participant c"
  using move_all_joints_rejects [OF assms, of frepr c]
  by (simp add: published_def)

theorem move_all_joints_bad_length_witness:
  "\<exists>c'. move_all_joints repr2 (init 0) [IntNum 1, FloatNum F45] = Returns c'
           \<and> stdout c' = stdout (init 0) @ [''Error: expected 7 angles, got 2'']
           \<and> published (init 0) (Returns c') = []
           \<and> cmd_writer c' = [] \<and> seq c' = 0 \<and> participant c' = 0"
proof -
  have "length [IntNum 1, FloatNum F45] \<noteq> 7" by simp
  from move_all_joints_bad_length [OF this, of repr2 "init 0"]
  show ?thesis
    by (simp add: str_int_small) (simp add: init_def print_def)
qed

section \<open>Payloads of the four commands\<close>

text \<open>
  C4. On a fresh controller, \<^verbatim>\<open>move_joint(3, 45.0)\<close> (the delay left at its default)
  returns having published exactly one message. Its text is the one \<^verbatim>\<open>json.dumps\<close>
  writes, and it decodes to the object
  \<^verbatim>\<open>{"funcode":1,"data":{"id":3,"angle":45.0,"delay_ms":0},"seq":0,"address":1}\<close>.
  The float 45.0 is the float \<open>a\<close> that is printed as \<^verbatim>\<open>45.0\<close> and that this text is read
  as.
\<close>

theorem move_joint_3_45:
  assumes "frepr a = ''45.0''" and "fparse ''45.0'' = a"
  shows \<open>\<exists>c' m. move_joint frepr (init domain_id_default) 3 (FloatNum a) delay_ms_default = Returns c'
           \<and> cmd_writer c' = [m]
           \<and> data m = ''{"funcode": 1, "data": {"id": 3, "angle": 45.0, "delay_ms": 0}, "seq": 0, "address": 1}''
           \<and> json_loads fparse (data m)
             = Some (Dict [(''funcode'', Num (IntNum 1)),
                           (''data'', Dict [(''id'', Num (IntNum 3)),
                                            (''angle'', Num (FloatNum a)),
                                            (''delay_ms'', Num (IntNum 0))]),
                           (''seq'', Num (IntNum 0)),
                           (''address'', Num (IntNum 1))])\<close>
proof -
  have dec: "decodable frepr fparse (Num (FloatNum a))"
    using assms by (simp add: float_literal_samples)
  have "(0::int) \<le> 3" and "(3::int) \<le> 6" by simp_all
  from move_joint_sends [OF this dec, of "init domain_id_default" delay_ms_default]
  obtain c' m where r: "move_joint frepr (init domain_id_default) 3 (FloatNum a) delay_ms_default = Returns c'"
    and w: "cmd_writer c' = [m]"
    and l: "json_loads fparse (data m)
             = Some (Dict [(''funcode'', Num (IntNum 1)),
                           (''data'', Dict [(''id'', Num (IntNum 3)),
                                            (''angle'', Num (FloatNum a)),
                                            (''delay_ms'', Num (IntNum 0))]),
                           (''seq'', Num (IntNum 0)),
                           (''address'', Num (IntNum 1))])"
    by (auto simp: init_fields delay_ms_default_def)
  have \<open>data m = ''{"funcode": 1, "data": {"id": 3, "angle": 45.0, "delay_ms": 0}, "seq": 0, "address": 1}''\<close>
    using r w assms(1)
    by (auto simp: move_joint_def getitem_JOINT_NAMES send_eq print_def init_fields
        delay_ms_default_def dumps_key_def dquote_def str_int_small)
  with r w l show ?thesis by blast
qed

theorem move_joint_3_45_witness:
  \<open>\<exists>c' m. move_joint repr2 (init 0) 3 (FloatNum F45) 0 = Returns c'
           \<and> cmd_writer c' = [m]
           \<and> data m = ''{"funcode": 1, "data": {"id": 3, "angle": 45.0, "delay_ms": 0}, "seq": 0, "address": 1}''
           \<and> json_loads parse2 (data m)
             = Some (Dict [(''funcode'', Num (IntNum 1)),
                           (''data'', Dict [(''id'', Num (IntNum 3)),
                                            (''angle'', Num (FloatNum F45)),
                                            (''delay_ms'', Num (IntNum 0))]),
                           (''seq'', Num (IntNum 0)),
                           (''address'', Num (IntNum 1))])\<close>
proof -
  have "repr2 F45 = ''45.0''" and "parse2 ''45.0'' = F45"
    by (simp_all add: parse2_def)
  from move_joint_3_45 [of repr2 F45 parse2, OF this] show ?thesis
    by (simp add: domain_id_default_def delay_ms_default_def)
qed

text \<open>
  C5. For every list of seven angles none of which is a not-a-number (ints, finite
  floats, which the interpreter reads back from their repr, and infinities),
  \<^verbatim>\<open>move_all_joints\<close> publishes one message, and decoding it gives \<^verbatim>\<open>funcode\<close> 2,
  \<^verbatim>\<open>data.mode\<close> 1 and, for each \<open>i\<close> from 0 to 6, a \<^verbatim>\<open>data.angle<i>\<close> that is equal
  (\<^verbatim>\<open>==\<close>) to element \<open>i\<close> of the list. The instance is the list
  \<^verbatim>\<open>[0,10,20,30,40,50,60]\<close>.
\<close>

theorem move_all_joints_round_trip:
  assumes "length angles = 7" and "NaN \<notin> set angles" and "float_codec frepr fparse"
  shows "\<exists>c' m d dd. move_all_joints frepr c angles = Returns c'
           \<and> published c (Returns c') = [m]
           \<and> json_loads fparse (data m) = Some (Dict d)
           \<and> lookup d ''funcode'' = Some (Num (IntNum 2))
           \<and> lookup d ''data'' = Some (Dict dd)
           \<and> lookup dd ''mode'' = Some (Num (IntNum 1))
           \<and> (\<forall>i<7. \<exists>a. lookup dd (''angle'' @ str_int (int i)) = Some (Num a)
                         \<and> py_eq a (angles ! i))"
proof -
  have dec: "list_all (\<lambda>a. decodable frepr fparse (Num a)) angles"
    using decodable_codec [OF assms(3)] by (simp add: list_all_iff)
  from move_all_joints_sends [OF assms(1) dec, of c] obtain c' m where
    r: "move_all_joints frepr c angles = Returns c'" and w: "cmd_writer c' = cmd_writer c @ [m]"
    and l: "json_loads fparse (data m)
             = Some (Dict [(''funcode'', Num (IntNum 2)),
                           (''data'', Dict [(''mode'', Num (IntNum 1)),
                                            (''angle0'', Num (angles ! 0)), (''angle1'', Num (angles ! 1)),
                                            (''angle2'', Num (angles ! 2)), (''angle3'', Num (angles ! 3)),
                                            (''angle4'', Num (angles ! 4)), (''angle5'', Num (angles ! 5)),
                                            (''angle6'', Num (angles ! 6))]),
                           (''seq'', Num (IntNum (seq c))),
                           (''address'', Num (IntNum 1))])"
    by blast
  let ?dd = "[(''mode'', Num (IntNum 1)),
              (''angle0'', Num (angles ! 0)), (''angle1'', Num (angles ! 1)),
              (''angle2'', Num (angles ! 2)), (''angle3'', Num (angles ! 3)),
              (''angle4'', Num (angles ! 4)), (''angle5'', Num (angles ! 5)),
              (''angle6'', Num (angles ! 6))]"
  have look: "\<exists>a. lookup ?dd (''angle'' @ str_int (int i)) = Some (Num a) \<and> py_eq a (angles ! i)"
    if "i < 7" for i
  proof -
    from that assms(1,2) have "angles ! i \<noteq> NaN"
      by (metis nth_mem)
    then have eq: "py_eq (angles ! i) (angles ! i)"
      by (simp add: py_eq_iff)
    from that consider "i = 0" | "i = 1" | "i = 2" | "i = 3" | "i = 4" | "i = 5" | "i = 6"
      by arith
    then have "lookup ?dd (''angle'' @ str_int (int i)) = Some (Num (angles ! i))"
      by cases (simp_all add: str_int_small)
    with eq show ?thesis by blast
  qed
  let ?d = "[(''funcode'', Num (IntNum 2)), (''data'', Dict ?dd),
             (''seq'', Num (IntNum (seq c))), (''address'', Num (IntNum 1))]"
  have "lookup ?d ''funcode'' = Some (Num (IntNum 2))" and "lookup ?d ''data'' = Some (Dict ?dd)"
    and "lookup ?dd ''mode'' = Some (Num (IntNum 1))"
    by simp_all
  with r l published_one [OF w] look show ?thesis
    by blast
qed

theorem move_all_joints_round_trip_witness:
  "\<exists>c' m d dd.
      move_all_joints repr2 (init 0)
        [IntNum 0, IntNum 10, IntNum 20, IntNum 30, IntNum 40, IntNum 50, IntNum 60] = Returns c'
      \<and> published (init 0) (Returns c') = [m]
      \<and> json_loads parse2 (data m) = Some (Dict d)
      \<and> lookup d ''funcode'' = Some (Num (IntNum 2))
      \<and> lookup d ''data'' = Some (Dict dd)
      \<and> lookup dd ''mode'' = Some (Num (IntNum 1))
      \<and> lookup dd ''angle0'' = Some (Num (IntNum 0))
      \<and> lookup dd ''angle1'' = Some (Num (IntNum 10))
      \<and> lookup dd ''angle2'' = Some (Num (IntNum 20))
      \<and> lookup dd ''angle3'' = Some (Num (IntNum 30))
      \<and> lookup dd ''angle4'' = Some (Num (IntNum 40))
      \<and> lookup dd ''angle5'' = Some (Num (IntNum 50))
      \<and> lookup dd ''angle6'' = Some (Num (IntNum 60))"
proof -
  let ?angles = "[IntNum 0, IntNum 10, IntNum 20, IntNum 30, IntNum 40, IntNum 50, IntNum 60] :: float2 number list"
  have "length ?angles = 7" and "NaN \<notin> set ?angles"
    by simp_all
  from move_all_joints_round_trip [OF this float_codec2, of "init 0"] obtain c' m d dd where
    a: "move_all_joints repr2 (init 0) ?angles = Returns c'"
      "published (init 0) (Returns c') = [m]"
      "json_loads parse2 (data m) = Some (Dict d)"
      "lookup d ''funcode'' = Some (Num (IntNum 2))"
      "lookup d ''data'' = Some (Dict dd)"
      "lookup dd ''mode'' = Some (Num (IntNum 1))"
    and each: "\<forall>i<7. \<exists>a. lookup dd (''angle'' @ str_int (int i)) = Some (Num a)
                  \<and> py_eq a (?angles ! i)"
    by blast
  have "lookup dd ''angle0'' = Some (Num (IntNum 0))"
    using each [rule_format, of 0] by (auto simp: str_int_small py_eq_iff)
  moreover have "lookup dd ''angle1'' = Some (Num (IntNum 10))"
    using each [rule_format, of 1] by (auto simp: str_int_small py_eq_iff)
  moreover have "lookup dd ''angle2'' = Some (Num (IntNum 20))"
    using each [rule_format, of 2] by (auto simp: str_int_small py_eq_iff)
  moreover have "lookup dd ''angle3'' = Some (Num (IntNum 30))"
    using each [rule_format, of 3] by (auto simp: str_int_small py_eq_iff)
  moreover have "lookup dd ''angle4'' = Some (Num (IntNum 40))"
    using each [rule_format, of 4] by (auto simp: str_int_small py_eq_iff)
  moreover have "lookup dd ''angle5'' = Some (Num (IntNum 50))"
    using each [rule_format, of 5] by (auto simp: str_int_small py_eq_iff)
  moreover have "lookup dd ''angle6'' = Some (Num (IntNum 60))"
    using each [rule_format, of 6] by (auto simp: str_int_small py_eq_iff)
  ultimately show ?thesis
    using a by blast
qed

text \<open>
  For every list of seven angles the property does not hold. With a not-a-number as
  the first angle the message is published all the same, with \<^verbatim>\<open>NaN\<close> in its text;
  \<^verbatim>\<open>angle0\<close> decodes to a not-a-number, and that is not equal to the angle that was
  passed, since a not-a-number is equal to nothing.
\<close>

theorem move_all_joints_nan_counterexample:
  \<open>length nan_angles = 7
   \<and> map data (published (init 0) (move_all_joints repr2 (init 0) nan_angles))
     = [''{"funcode": 2, "data": {"mode": 1, "angle0": NaN, "angle1": 10, "angle2": 20, "angle3": 30, "angle4": 40, "angle5": 50, "angle6": 60}, "seq": 0, "address": 1}'']
   \<and> map (json_loads parse2 \<circ> data) (published (init 0) (move_all_joints repr2 (init 0) nan_angles))
     = [Some (Dict [(''funcode'', Num (IntNum 2)),
                    (''data'', Dict [(''mode'', Num (IntNum 1)),
                                     (''angle0'', Num NaN), (''angle1'', Num (IntNum 10)),
                                     (''angle2'', Num (IntNum 20)), (''angle3'', Num (IntNum 30)),
                                     (''angle4'', Num (IntNum 40)), (''angle5'', Num (IntNum 50)),
                                     (''angle6'', Num (IntNum 60))]),
                    (''seq'', Num (IntNum 0)),
                    (''address'', Num (IntNum 1))])]
   \<and> nan_angles ! 0 = NaN
   \<and> \<not> py_eq NaN (nan_angles ! 0)\<close>
proof -
  have p: "published (init 0) (move_all_joints repr2 (init 0) nan_angles)
      = [\<lparr>data = json_dumps repr2
            (Dict [(''funcode'', Num (IntNum 2)),
                   (''data'', Dict [(''mode'', Num (IntNum 1)),
                                    (''angle0'', Num NaN), (''angle1'', Num (IntNum 10)),
                                    (''angle2'', Num (IntNum 20)), (''angle3'', Num (IntNum 30)),
                                    (''angle4'', Num (IntNum 40)), (''angle5'', Num (IntNum 50)),
                                    (''angle6'', Num (IntNum 60))]),
                   (''seq'', Num (IntNum 0)),
                   (''address'', Num (IntNum 1))])\<rparr>]"
    by (simp add: published_move_all_joints nan_angles_def init_fields del: json_dumps.simps)
  have t: \<open>json_dumps repr2
            (Dict [(''funcode'', Num (IntNum 2)),
                   (''data'', Dict [(''mode'', Num (IntNum 1)),
                                    (''angle0'', Num NaN), (''angle1'', Num (IntNum 10)),
                                    (''angle2'', Num (IntNum 20)), (''angle3'', Num (IntNum 30)),
                                    (''angle4'', Num (IntNum 40)), (''angle5'', Num (IntNum 50)),
                                    (''angle6'', Num (IntNum 60))]),
                   (''seq'', Num (IntNum 0)),
                   (''address'', Num (IntNum 1))])
     = ''{"funcode": 2, "data": {"mode": 1, "angle0": NaN, "angle1": 10, "angle2": 20, "angle3": 30, "angle4": 40, "angle5": 50, "angle6": 60}, "seq": 0, "address": 1}''\<close>
    by (simp add: dumps_key_def dquote_def str_int_small str_int_tens)
  note pub = p [unfolded t]
  note dec = json_loads_json_dumps [OF nan_payload_decodable, unfolded t]
  have "length nan_angles = 7" and "nan_angles ! 0 = NaN"
    by (simp_all add: nan_angles_def)
  then show ?thesis
    by (simp add: pub dec)
qed

text \<open>
  C6. Every call of \<^verbatim>\<open>go_to_zero\<close> publishes one message; it decodes to an object with
  \<^verbatim>\<open>funcode\<close> 7, the counter and the address, and with no \<^verbatim>\<open>data\<close> key at all.
\<close>

theorem go_to_zero_no_data:
  fixes frepr :: "'f \<Rightarrow> string" and fparse :: "string \<Rightarrow> 'f"
  shows "\<exists>c' m d. go_to_zero frepr c = Returns c'
           \<and> published c (Returns c') = [m]
           \<and> json_loads fparse (data m) = Some (Dict d)
           \<and> d = [(''funcode'', Num (IntNum 7)), (''seq'', Num (IntNum (seq c))),
                  (''address'', Num (IntNum 1))]
           \<and> lookup d ''funcode'' = Some (Num (IntNum 7))
           \<and> lookup d ''data'' = None"
proof -
  from go_to_zero_sends [where c = c and frepr = frepr and fparse = fparse] obtain c' m where
    "go_to_zero frepr c = Returns c'" and w: "cmd_writer c' = cmd_writer c @ [m]"
    and "json_loads fparse (data m)
         = Some (Dict [(''funcode'', Num (IntNum 7)), (''seq'', Num (IntNum (seq c))),
                       (''address'', Num (IntNum 1))])"
    by blast
  with published_one [OF w] show ?thesis by simp
qed

text \<open>
  C7. \<^verbatim>\<open>enable_joints\<close> checks nothing: for every int \<open>mode\<close> it publishes one message,
  which decodes to \<^verbatim>\<open>funcode\<close> 5 and \<^verbatim>\<open>data\<close> \<^verbatim>\<open>{"mode": mode}\<close>. On a fresh controller,
  \<^verbatim>\<open>enable_joints(1)\<close> followed by \<^verbatim>\<open>enable_joints()\<close> leaves two messages, with
  \<^verbatim>\<open>data.mode\<close> 1 and 0 and \<^verbatim>\<open>seq\<close> 0 and 1.
\<close>

theorem enable_joints_any_mode:
  fixes frepr :: "'f \<Rightarrow> string" and fparse :: "string \<Rightarrow> 'f"
  shows "(\<exists>c' m. enable_joints frepr c mode = Returns c'
            \<and> published c (Returns c') = [m]
            \<and> json_loads fparse (data m)
              = Some (Dict [(''funcode'', Num (IntNum 5)),
                            (''data'', Dict [(''mode'', Num (IntNum mode))]),
                            (''seq'', Num (IntNum (seq c))),
                            (''address'', Num (IntNum 1))]))
         \<and> (\<exists>c1 c2 m1 m2.
               enable_joints frepr (init domain_id) 1 = Returns c1
             \<and> enable_joints frepr c1 mode_default = Returns c2
             \<and> cmd_writer c2 = [m1, m2]
             \<and> json_loads fparse (data m1)
               = Some (Dict [(''funcode'', Num (IntNum 5)),
                             (''data'', Dict [(''mode'', Num (IntNum 1))]),
                             (''seq'', Num (IntNum 0)),
                             (''address'', Num (IntNum 1))])
             \<and> json_loads fparse (data m2)
               = Some (Dict [(''funcode'', Num (IntNum 5)),
                             (''data'', Dict [(''mode'', Num (IntNum 0))]),
                             (''seq'', Num (IntNum 1)),
                             (''address'', Num (IntNum 1))]))"
proof
  from enable_joints_sends [where c = c and frepr = frepr and fparse = fparse and mode = mode]
  obtain c' m where "enable_joints frepr c mode = Returns c'"
    and w: "cmd_writer c' = cmd_writer c @ [m]"
    and "json_loads fparse (data m)
         = Some (Dict [(''funcode'', Num (IntNum 5)),
                       (''data'', Dict [(''mode'', Num (IntNum mode))]),
                       (''seq'', Num (IntNum (seq c))),
                       (''address'', Num (IntNum 1))])"
    by blast
  with published_one [OF w]
  show "\<exists>c' m. enable_joints frepr c mode = Returns c'
            \<and> published c (Returns c') = [m]
            \<and> json_loads fparse (data m)
              = Some (Dict [(''funcode'', Num (IntNum 5)),
                            (''data'', Dict [(''mode'', Num (IntNum mode))]),
                            (''seq'', Num (IntNum (seq c))),
                            (''address'', Num (IntNum 1))])"
    by blast
next
  from enable_joints_sends [where c = "init domain_id" and frepr = frepr and fparse = fparse
      and mode = 1]
  obtain c1 m1 where r1: "enable_joints frepr (init domain_id) 1 = Returns c1"
    and s1: "seq c1 = 1" and w1: "cmd_writer c1 = [m1]"
    and l1: "json_loads fparse (data m1)
         = Some (Dict [(''funcode'', Num (IntNum 5)),
                       (''data'', Dict [(''mode'', Num (IntNum 1))]),
                       (''seq'', Num (IntNum 0)),
                       (''address'', Num (IntNum 1))])"
    by (auto simp: init_def print_def)
  from enable_joints_sends [where c = c1 and frepr = frepr and fparse = fparse
      and mode = mode_default]
  obtain c2 m2 where r2: "enable_joints frepr c1 mode_default = Returns c2"
    and w2: "cmd_writer c2 = [m1, m2]"
    and l2: "json_loads fparse (data m2)
         = Some (Dict [(''funcode'', Num (IntNum 5)),
                       (''data'', Dict [(''mode'', Num (IntNum 0))]),
                       (''seq'', Num (IntNum 1)),
                       (''address'', Num (IntNum 1))])"
    using s1 w1 by (auto simp: mode_default_def)
  from r1 r2 w2 l1 l2
  show "\<exists>c1 c2 m1 m2.
               enable_joints frepr (init domain_id) 1 = Returns c1
             \<and> enable_joints frepr c1 mode_default = Returns c2
             \<and> cmd_writer c2 = [m1, m2]
             \<and> json_loads fparse (data m1)
               = Some (Dict [(''funcode'', Num (IntNum 5)),
                             (''data'', Dict [(''mode'', Num (IntNum 1))]),
                             (''seq'', Num (IntNum 0)),
                             (''address'', Num (IntNum 1))])
             \<and> json_loads fparse (data m2)
               = Some (Dict [(''funcode'', Num (IntNum 5)),
                             (''data'', Dict [(''mode'', Num (IntNum 0))]),
                             (''seq'', Num (IntNum 1)),
                             (''address'', Num (IntNum 1))])"
    by blast
qed

section \<open>The payload depends on the counter and the arguments only\<close>

text \<open>
  C10. Two controllers with the same counter, called with the same arguments, publish
  the same messages, character for character, whichever of the four commands is called:
  nothing else in a controller (its participant, what it published or printed before)
  reaches the payload.
\<close>

theorem payload_determined:
  assumes "seq c1 = seq c2"
  shows "published c1 (move_joint frepr c1 joint_id angle delay_ms)
           = published c2 (move_joint frepr c2 joint_id angle delay_ms)
         \<and> published c1 (move_all_joints frepr c1 angles)
           = published c2 (move_all_joints frepr c2 angles)
         \<and> published c1 (enable_joints frepr c1 mode) = published c2 (enable_joints frepr c2 mode)
         \<and> published c1 (go_to_zero frepr c1) = published c2 (go_to_zero frepr c2)"
proof (intro conjI)
  show "published c1 (move_joint frepr c1 joint_id angle delay_ms)
        = published c2 (move_joint frepr c2 joint_id angle delay_ms)"
    by (simp only: published_move_joint assms)
  show "published c1 (move_all_joints frepr c1 angles)
        = published c2 (move_all_joints frepr c2 angles)"
    by (simp only: published_move_all_joints assms)
  show "published c1 (enable_joints frepr c1 mode) = published c2 (enable_joints frepr c2 mode)"
    by (simp only: enable_joints_def published_send assms)
  show "published c1 (go_to_zero frepr c1) = published c2 (go_to_zero frepr c2)"
    by (simp only: go_to_zero_def published_send assms)
qed

theorem payload_determined_witness:
  "seq (init 0) = seq other_controller
   \<and> published (init 0) (move_joint repr2 (init 0) 3 (FloatNum F45) 0)
     = published other_controller (move_joint repr2 other_controller 3 (FloatNum F45) 0)
   \<and> published (init 0) (move_all_joints repr2 (init 0) (replicate 7 (FloatNum Fsmall)))
     = published other_controller (move_all_joints repr2 other_controller (replicate 7 (FloatNum Fsmall)))
   \<and> published (init 0) (enable_joints repr2 (init 0) 1)
     = published other_controller (enable_joints repr2 other_controller 1)
   \<and> published (init 0) (go_to_zero repr2 (init 0))
     = published other_controller (go_to_zero repr2 other_controller)"
proof -
  have s: "seq (init 0) = seq other_controller"
    by (simp add: init_def print_def other_controller_def)
  from payload_determined [OF s] s show ?thesis
    by blast
qed

section \<open>The address field\<close>

text \<open>
  C8. Every message published by a run of calls, whichever of the four commands sent
  it, decodes to an object whose \<^verbatim>\<open>address\<close> is 1.
\<close>

theorem address_always_1:
  assumes "float_codec frepr fparse"
  shows "\<exists>c' new. run frepr c cs = Returns c'
           \<and> cmd_writer c' = cmd_writer c @ new
           \<and> length new = length (filter sends cs)
           \<and> (\<forall>m \<in> set new. \<exists>d. json_loads fparse (data m) = Some (Dict d)
                  \<and> lookup d ''address'' = Some (Num (IntNum 1)))"
proof -
  from run_sends [OF assms, of c cs] obtain c' new where
    "run frepr c cs = Returns c'"
    "cmd_writer c' = cmd_writer c @ new" "length new = length (filter sends cs)"
    and each: "\<forall>n<length new. \<exists>d. json_loads fparse (data (new ! n)) = Some (Dict d)
                  \<and> lookup d ''seq'' = Some (Num (IntNum (seq c + int n)))
                  \<and> lookup d ''address'' = Some (Num (IntNum 1))"
    by blast
  moreover have "\<forall>m \<in> set new. \<exists>d. json_loads fparse (data m) = Some (Dict d)
                  \<and> lookup d ''address'' = Some (Num (IntNum 1))"
  proof
    fix m
    assume "m \<in> set new"
    then obtain n where "n < length new" and "new ! n = m"
      by (auto simp: in_set_conv_nth)
    with each show "\<exists>d. json_loads fparse (data m) = Some (Dict d)
                  \<and> lookup d ''address'' = Some (Num (IntNum 1))"
      by blast
  qed
  ultimately show ?thesis by blast
qed

theorem address_always_1_witness:
  "float_codec repr2 parse2
   \<and> (\<exists>c' new. run repr2 (init 0) sample_program = Returns c'
         \<and> cmd_writer c' = new \<and> length new = 4
         \<and> (\<forall>m \<in> set new. \<exists>d. json_loads parse2 (data m) = Some (Dict d)
                \<and> lookup d ''address'' = Some (Num (IntNum 1))))"
proof -
  have "cmd_writer (init 0) = []"
    by (simp add: init_def print_def)
  with address_always_1 [OF float_codec2, of "init 0" sample_program] float_codec2
  show ?thesis
    by (simp add: count_sample_program)
qed

section \<open>Telemetry samples\<close>

text \<open>
  C9. The list a sample gives has exactly seven elements, element \<open>i\<close> is the field
  \<^verbatim>\<open>servo<i>_data_\<close> (index 0 the base rotation, index 6 the gripper), and the list of a
  default-constructed sample is seven zeros.
\<close>

theorem as_list_fields:
  "length (as_list p) = 7
   \<and> as_list p ! 0 = servo0_data p \<and> as_list p ! 1 = servo1_data p
   \<and> as_list p ! 2 = servo2_data p \<and> as_list p ! 3 = servo3_data p
   \<and> as_list p ! 4 = servo4_data p \<and> as_list p ! 5 = servo5_data p
   \<and> as_list p ! 6 = servo6_data p
   \<and> as_list (PubServoInfo_default :: ('f::zero) PubServoInfo) = replicate 7 0"
  by (simp add: as_list_def PubServoInfo_default_def numeral_eq_Suc)

end
